theory Spec2Isabelle
  imports Complex_Main "HOL-Library.List_Lexorder" "HOL-Library.Multiset"
begin

section \<open>Values of the Python program\<close>

text \<open>
  The program is \<^verbatim>\<open>src/lambda/github_sync.py\<close>. A Python \<^verbatim>\<open>str\<close> is the list of its
  Unicode code points, so that \<^verbatim>\<open>strip\<close>, \<^verbatim>\<open>startswith\<close> and the comparison of two strings
  count what Python counts. \<open>lit\<close> turns a literal of the source into such a list.
  \<^verbatim>\<open>bytes\<close> are lists of 8-bit characters.
\<close>

type_synonym str = "nat list"

type_synonym bytes = "string"

definition lit :: "string \<Rightarrow> str" where
  "lit s = map of_char s"

text \<open>
  What \<^verbatim>\<open>json.loads\<close> returns: \<^verbatim>\<open>None\<close>, \<^verbatim>\<open>bool\<close>, \<^verbatim>\<open>int\<close>, \<^verbatim>\<open>float\<close> (the finite ones),
  \<^verbatim>\<open>str\<close>, \<^verbatim>\<open>list\<close> and \<^verbatim>\<open>dict\<close>. A dict is an association list in insertion order, the
  order in which \<^verbatim>\<open>values()\<close> iterates; its keys are strings.
\<close>

datatype json =
    JNull
  | JBool bool
  | JInt int
  | JFloat real
  | JStr str
  | JList "json list"
  | JDict "(str \<times> json) list"

text \<open>
  The exceptions that leave the functions of the module. The three \<^verbatim>\<open>RuntimeError\<close>s of
  \<^verbatim>\<open>_load_token\<close> are told apart by their messages:
  \<open>SecretMissing\<close> is "Secret does not contain a SecretString payload.",
  \<open>SecretEmpty\<close> is "GitHub token secret is empty." and
  \<open>SecretJSONNoToken\<close> is "Secret JSON found but no token field detected. ...".
  \<open>GitHubHTTPError code body\<close> is \<^verbatim>\<open>RuntimeError(f"GitHub API error {exc.code}: {body}")\<close>,
  \<open>GitHubNetworkError reason\<close> is \<^verbatim>\<open>RuntimeError(f"GitHub API request failed: {exc.reason}")\<close>
  and \<open>UnexpectedPayloadShape\<close> is \<^verbatim>\<open>RuntimeError("Unexpected payload from GitHub API.")\<close>.
  The others are raised by the interpreter or by a library and are not caught anywhere:
  \<open>KeyError\<close> by \<^verbatim>\<open>os.environ[...]\<close>, \<open>ValueError\<close> by \<^verbatim>\<open>int(...)\<close>, \<open>TypeError\<close> by a
  comparison \<^verbatim>\<open><\<close> of two values that have no order, \<open>AttributeError\<close> by \<^verbatim>\<open>.get\<close> on a
  value that is not a dict, \<open>JSONDecodeError\<close> by \<^verbatim>\<open>json.loads\<close> of the response body,
  \<open>UnicodeError\<close> by \<^verbatim>\<open>decode\<close>, \<open>ClientError\<close> by a boto3 call.
\<close>

datatype error =
    SecretMissing
  | SecretEmpty
  | SecretJSONNoToken
  | GitHubHTTPError int str
  | GitHubNetworkError str
  | UnexpectedPayloadShape
  | KeyError str
  | ValueError
  | TypeError
  | AttributeError
  | JSONDecodeError
  | UnicodeError
  | ClientError str

subsection \<open>Strings\<close>

text \<open>
  \<^verbatim>\<open>str.isspace\<close> for one character: the code points CPython's
  \<^verbatim>\<open>_PyUnicode_IsWhitespace\<close> accepts.
\<close>

definition py_isspace :: "nat \<Rightarrow> bool" where
  "py_isspace c \<longleftrightarrow>
     (9 \<le> c \<and> c \<le> 13) \<or> (28 \<le> c \<and> c \<le> 32) \<or> c = 133 \<or> c = 160 \<or> c = 5760 \<or>
     (8192 \<le> c \<and> c \<le> 8202) \<or> c = 8232 \<or> c = 8233 \<or> c = 8239 \<or> c = 8287 \<or> c = 12288"

definition strip :: "str \<Rightarrow> str" where
  "strip s = rev (dropWhile py_isspace (rev (dropWhile py_isspace s)))"

definition startswith :: "str \<Rightarrow> str \<Rightarrow> bool" where
  "startswith s p \<longleftrightarrow> take (length p) s = p"

subsection \<open>Dicts\<close>

text \<open>\<^verbatim>\<open>d.get(key, default)\<close>; \<^verbatim>\<open>d.get(key)\<close> is \<open>dict_get d key JNull\<close>.\<close>

definition dict_get :: "(str \<times> json) list \<Rightarrow> str \<Rightarrow> json \<Rightarrow> json" where
  "dict_get d k dflt = (case map_of d k of None \<Rightarrow> dflt | Some v \<Rightarrow> v)"

subsection \<open>Comparison and sorting\<close>

text \<open>
  \<^verbatim>\<open>a == b\<close> and \<^verbatim>\<open>a < b\<close> on the values above. Numbers (\<^verbatim>\<open>bool\<close> included) compare by
  value, strings by code points, lists lexicographically from the first pair of elements
  that are not equal; every other pair has no order and \<^verbatim>\<open><\<close> raises \<^verbatim>\<open>TypeError\<close>.
\<close>

fun num_of :: "json \<Rightarrow> real option" where
  "num_of (JBool b) = Some (if b then 1 else 0)"
| "num_of (JInt i) = Some (of_int i)"
| "num_of (JFloat r) = Some r"
| "num_of _ = None"

fun py_eq :: "json \<Rightarrow> json \<Rightarrow> bool" where
  "py_eq (JStr s) (JStr t) = (s = t)"
| "py_eq JNull JNull = True"
| "py_eq (JList xs) (JList ys) = list_all2 py_eq xs ys"
| "py_eq (JDict d) (JDict e) =
     (length d = length e \<and>
      list_all (\<lambda>(k, v). case map_of e k of None \<Rightarrow> False | Some w \<Rightarrow> py_eq v w) d)"
| "py_eq a b = (case (num_of a, num_of b) of (Some x, Some y) \<Rightarrow> x = y | _ \<Rightarrow> False)"

fun py_lt :: "json \<Rightarrow> json \<Rightarrow> error + bool"
  and py_lt_list :: "json list \<Rightarrow> json list \<Rightarrow> error + bool" where
  "py_lt (JStr s) (JStr t) = Inr (s < t)"
| "py_lt (JList xs) (JList ys) = py_lt_list xs ys"
| "py_lt a b = (case (num_of a, num_of b) of (Some x, Some y) \<Rightarrow> Inr (x < y) | _ \<Rightarrow> Inl TypeError)"
| "py_lt_list [] ys = Inr (ys \<noteq> [])"
| "py_lt_list (x # xs) [] = Inr False"
| "py_lt_list (x # xs) (y # ys) = (if py_eq x y then py_lt_list xs ys else py_lt x y)"

text \<open>
  \<^verbatim>\<open>sorted(xs, key=f, reverse=True)\<close>. CPython computes every key first, in list order,
  reverses the list, sorts it ascending with a stable sort that only asks \<^verbatim>\<open><\<close> of two
  keys, and reverses the result; an exception of the key function or of a comparison
  leaves \<^verbatim>\<open>sorted\<close>. The ascending sort is modelled as insertion from the left, each
  element going behind the elements that are not greater: for keys that are totally
  ordered this is the list every stable sort returns, CPython's included. Which pairs
  of keys are compared is particular to the model; it matters only for lists in which
  some pairs of keys have an order and others have none.
\<close>

fun insort_lt :: "json \<times> 'a \<Rightarrow> (json \<times> 'a) list \<Rightarrow> error + (json \<times> 'a) list" where
  "insort_lt x [] = Inr [x]"
| "insort_lt x (y # ys) =
     (case py_lt (fst x) (fst y) of
        Inl e \<Rightarrow> Inl e
      | Inr True \<Rightarrow> Inr (x # y # ys)
      | Inr False \<Rightarrow> (case insort_lt x ys of Inl e \<Rightarrow> Inl e | Inr zs \<Rightarrow> Inr (y # zs)))"

fun sort_lt :: "(json \<times> 'a) list \<Rightarrow> (json \<times> 'a) list \<Rightarrow> error + (json \<times> 'a) list" where
  "sort_lt acc [] = Inr acc"
| "sort_lt acc (x # xs) = (case insort_lt x acc of Inl e \<Rightarrow> Inl e | Inr acc' \<Rightarrow> sort_lt acc' xs)"

fun keys_of :: "('a \<Rightarrow> error + json) \<Rightarrow> 'a list \<Rightarrow> error + (json \<times> 'a) list" where
  "keys_of f [] = Inr []"
| "keys_of f (x # xs) =
     (case f x of
        Inl e \<Rightarrow> Inl e
      | Inr k \<Rightarrow> (case keys_of f xs of Inl e \<Rightarrow> Inl e | Inr ks \<Rightarrow> Inr ((k, x) # ks)))"

definition sorted_reverse :: "('a \<Rightarrow> error + json) \<Rightarrow> 'a list \<Rightarrow> error + 'a list" where
  "sorted_reverse f xs =
     (case keys_of f xs of
        Inl e \<Rightarrow> Inl e
      | Inr ks \<Rightarrow> (case sort_lt [] (rev ks) of Inl e \<Rightarrow> Inl e | Inr ys \<Rightarrow> Inr (rev (map snd ys))))"

text \<open>\<^verbatim>\<open>xs[:n]\<close> for an \<^verbatim>\<open>int\<close> \<open>n\<close>: a negative \<open>n\<close> counts from the end.\<close>

definition slice_to :: "int \<Rightarrow> 'a list \<Rightarrow> 'a list" where
  "slice_to n xs = (if 0 \<le> n then take (nat n) xs else take (nat (int (length xs) + n)) xs)"

section \<open>The process and what is outside it\<close>

text \<open>
  \<open>proc\<close> is the state that outlives an invocation in a warm process: the module's global
  \<^verbatim>\<open>_cached_secret\<close>, together with the traces of what the process did to the outside:
  every value assigned to \<^verbatim>\<open>_cached_secret\<close>, every \<^verbatim>\<open>SecretId\<close> asked of Secrets Manager
  and every object put to S3, each in order.
\<close>

record s3_object =
  Bucket :: str
  Key :: str
  Body :: json
  ContentType :: str
  CacheControl :: str

record proc =
  cached_secret :: "str option"
  cache_writes :: "str list"
  secret_calls :: "str list"
  s3_puts :: "s3_object list"

definition cold :: proc where
  "cold = \<lparr>cached_secret = None, cache_writes = [], secret_calls = [], s3_puts = []\<rparr>"

text \<open>
  What the server of a request answered, as \<^verbatim>\<open>urllib\<close> sees it once redirects are
  followed: a reply with its status, the charset its headers declare (if any) and its
  body, or no reply at all, with the reason of the \<^verbatim>\<open>URLError\<close>.
\<close>

datatype wire = Replied int "str option" bytes | Unreachable str

text \<open>
  \<open>world\<close> is everything one invocation reads that is not code of the repository:
  the environment variables, the answer of Secrets Manager for a \<^verbatim>\<open>SecretId\<close> (an error,
  or the \<^verbatim>\<open>SecretString\<close> of the response, \<open>None\<close> when the response has none), the
  answer of the network for a URL and its headers, the outcome of \<^verbatim>\<open>put_object\<close>, the
  clock (\<open>now i\<close> is the \<open>i\<close>-th reading of
  \<^verbatim>\<open>datetime.now(timezone.utc).isoformat()\<close> in the invocation), and the library
  functions \<^verbatim>\<open>json.loads\<close> (\<open>None\<close> is \<^verbatim>\<open>JSONDecodeError\<close>), \<^verbatim>\<open>int\<close> on a string (\<open>None\<close> is
  \<^verbatim>\<open>ValueError\<close>), \<^verbatim>\<open>bytes.decode(charset)\<close> (\<open>None\<close> is a \<^verbatim>\<open>UnicodeError\<close> or
  \<^verbatim>\<open>LookupError\<close>) and \<^verbatim>\<open>bytes.decode("utf-8", errors="replace")\<close>.
\<close>

record world =
  environ :: "str \<rightharpoonup> str"
  get_secret_value :: "str \<Rightarrow> error + str option"
  urlopen :: "str \<Rightarrow> (str \<times> str) list \<Rightarrow> wire"
  put_object :: "s3_object \<Rightarrow> error option"
  now :: "nat \<Rightarrow> str"
  json_loads :: "str \<Rightarrow> json option"
  int_of_str :: "str \<Rightarrow> int option"
  decode :: "str \<Rightarrow> bytes \<Rightarrow> str option"
  decode_replace :: "bytes \<Rightarrow> str"

section \<open>The functions of the module\<close>

subsection \<open>\<^verbatim>\<open>_load_token\<close>\<close>

text \<open>
  The keys of the first loop, in the order of the tuple in the source.
\<close>

definition token_keys :: "str list" where
  "token_keys =
     map lit [''token'', ''Token'', ''PAT'', ''pat'', ''github_token'', ''githubToken'', ''value'']"

text \<open>
  The three loops of \<^verbatim>\<open>_load_token\<close> have one body: the first value that is a \<^verbatim>\<open>str\<close> and
  whose \<^verbatim>\<open>strip()\<close> is not empty gives the candidate, which is that \<^verbatim>\<open>strip()\<close>.
\<close>

fun first_token :: "json list \<Rightarrow> str option" where
  "first_token [] = None"
| "first_token (v # vs) =
     (case v of
        JStr s \<Rightarrow> (if strip s \<noteq> [] then Some (strip s) else first_token vs)
      | _ \<Rightarrow> first_token vs)"

text \<open>
  \<^verbatim>\<open>candidate_value\<close> once the secret has been parsed: for a dict the keys of
  \<open>token_keys\<close> through \<^verbatim>\<open>payload.get(key)\<close>, then \<^verbatim>\<open>payload.values()\<close>; for a list its
  items; \<^verbatim>\<open>None\<close> for any other value.
\<close>

definition candidate_value :: "json \<Rightarrow> str option" where
  "candidate_value payload =
     (case payload of
        JDict d \<Rightarrow>
          (case first_token (map (\<lambda>key. dict_get d key JNull) token_keys) of
             Some c \<Rightarrow> Some c
           | None \<Rightarrow> first_token (map snd d))
      | JList items \<Rightarrow> first_token items
      | _ \<Rightarrow> None)"

text \<open>
  Lines 21 to 60: from the \<^verbatim>\<open>SecretString\<close> of the response to the token, or to the
  \<^verbatim>\<open>RuntimeError\<close>. \<^verbatim>\<open>not secret_string\<close> holds of \<^verbatim>\<open>None\<close> and of the empty string.
\<close>

definition secret_token :: "(str \<Rightarrow> json option) \<Rightarrow> str option \<Rightarrow> error + str" where
  "secret_token loads secret_string =
     (case secret_string of
        None \<Rightarrow> Inl SecretMissing
      | Some s \<Rightarrow>
          if s = [] then Inl SecretMissing
          else
            let secret_value = strip s in
            if secret_value = [] then Inl SecretEmpty
            else if startswith secret_value (lit ''{'') then
              (case loads secret_value of
                 None \<Rightarrow> Inr secret_value
               | Some payload \<Rightarrow>
                   (case candidate_value payload of
                      None \<Rightarrow> Inl SecretJSONNoToken
                    | Some c \<Rightarrow> Inr c))
            else Inr secret_value)"

text \<open>
  Lines 20 to 63, the path of \<^verbatim>\<open>_load_token\<close> behind the cache check: one call of
  \<^verbatim>\<open>get_secret_value\<close>, and on success the assignment to \<^verbatim>\<open>_cached_secret\<close>.
\<close>

definition fetch_token :: "world \<Rightarrow> str \<Rightarrow> proc \<Rightarrow> (error + str) \<times> proc" where
  "fetch_token w secret_arn p =
     (let p1 = p\<lparr>secret_calls := secret_calls p @ [secret_arn]\<rparr> in
      case get_secret_value w secret_arn of
        Inl e \<Rightarrow> (Inl e, p1)
      | Inr secret_string \<Rightarrow>
          (case secret_token (json_loads w) secret_string of
             Inl e \<Rightarrow> (Inl e, p1)
           | Inr secret_value \<Rightarrow>
               (Inr secret_value,
                p1\<lparr>cached_secret := Some secret_value,
                   cache_writes := cache_writes p1 @ [secret_value]\<rparr>)))"

text \<open>
  \<^verbatim>\<open>_load_token(secret_arn)\<close>. \<^verbatim>\<open>if _cached_secret:\<close> holds of a string that is not empty.
\<close>

definition load_token :: "world \<Rightarrow> str \<Rightarrow> proc \<Rightarrow> (error + str) \<times> proc" where
  "load_token w secret_arn p =
     (case cached_secret p of
        None \<Rightarrow> fetch_token w secret_arn p
      | Some c \<Rightarrow> if c = [] then fetch_token w secret_arn p else (Inr c, p))"

subsection \<open>\<^verbatim>\<open>_github_request\<close>\<close>

text \<open>
  \<^verbatim>\<open>urlopen\<close> returns the reply when its status is in 200..299 and raises \<^verbatim>\<open>HTTPError\<close>
  with that status and body otherwise; with no reply it raises \<^verbatim>\<open>URLError\<close>. The two
  \<^verbatim>\<open>except\<close> clauses turn these into the \<^verbatim>\<open>RuntimeError\<close>s; what \<^verbatim>\<open>decode\<close> and \<^verbatim>\<open>json.loads\<close>
  raise inside the \<^verbatim>\<open>try\<close> is neither and passes through.
\<close>

definition request_headers :: "str \<Rightarrow> (str \<times> str) list" where
  "request_headers token =
     [(lit ''Accept'', lit ''application/vnd.github+json''),
      (lit ''User-Agent'', lit ''morrison-im-lambda-sync''),
      (lit ''X-GitHub-Api-Version'', lit ''2022-11-28''),
      (lit ''Authorization'', lit ''token '' @ token)]"

definition github_request :: "world \<Rightarrow> str \<Rightarrow> str \<Rightarrow> error + json" where
  "github_request w url token =
     (case urlopen w url (request_headers token) of
        Unreachable reason \<Rightarrow> Inl (GitHubNetworkError reason)
      | Replied status cs body \<Rightarrow>
          if 200 \<le> status \<and> status < 300 then
            (case decode w (case cs of None \<Rightarrow> lit ''utf-8'' | Some c \<Rightarrow> c) body of
               None \<Rightarrow> Inl UnicodeError
             | Some payload \<Rightarrow>
                 (case json_loads w payload of None \<Rightarrow> Inl JSONDecodeError | Some v \<Rightarrow> Inr v))
          else Inl (GitHubHTTPError status (decode_replace w body)))"

subsection \<open>\<^verbatim>\<open>_transform_repo\<close> and \<^verbatim>\<open>build_payload\<close>\<close>

text \<open>
  \<open>fetched_at\<close> is the reading of the clock made for this record. \<^verbatim>\<open>raw.get\<close> on a value
  that is not a dict raises \<^verbatim>\<open>AttributeError\<close>.
\<close>

definition transform_repo :: "str \<Rightarrow> json \<Rightarrow> error + json" where
  "transform_repo fetched_at raw =
     (case raw of
        JDict d \<Rightarrow>
          (let pushed_at = dict_get d (lit ''pushed_at'') JNull;
               last_push = (case pushed_at of JStr s \<Rightarrow> pushed_at | _ \<Rightarrow> JNull)
           in Inr (JDict
             [(lit ''repo'', dict_get d (lit ''full_name'') JNull),
              (lit ''displayName'', dict_get d (lit ''name'') JNull),
              (lit ''summary'', dict_get d (lit ''description'') JNull),
              (lit ''description'', dict_get d (lit ''description'') JNull),
              (lit ''htmlUrl'', dict_get d (lit ''html_url'') JNull),
              (lit ''homepage'', dict_get d (lit ''homepage'') JNull),
              (lit ''stars'', dict_get d (lit ''stargazers_count'') JNull),
              (lit ''language'', dict_get d (lit ''language'') JNull),
              (lit ''topics'', dict_get d (lit ''topics'') (JList [])),
              (lit ''lastPush'', last_push),
              (lit ''sync'', JDict
                 [(lit ''status'', JStr (lit ''ok'')),
                  (lit ''statusMessage'', JNull),
                  (lit ''fetchedAt'', JStr fetched_at)])]))
      | _ \<Rightarrow> Inl AttributeError)"

text \<open>
  The list comprehension of \<^verbatim>\<open>build_payload\<close>: the record at position \<open>j\<close> of the list is
  transformed with the reading \<open>clock (i + j)\<close>.
\<close>

fun transform_all :: "(nat \<Rightarrow> str) \<Rightarrow> nat \<Rightarrow> json list \<Rightarrow> error + json list" where
  "transform_all clock i [] = Inr []"
| "transform_all clock i (repo # repos) =
     (case transform_repo (clock i) repo of
        Inl e \<Rightarrow> Inl e
      | Inr x \<Rightarrow>
          (case transform_all clock (Suc i) repos of Inl e \<Rightarrow> Inl e | Inr xs \<Rightarrow> Inr (x # xs)))"

text \<open>
  The dict display evaluates its entries in order: \<^verbatim>\<open>generatedAt\<close> is reading 0 of the
  clock, the records follow from reading 1.
\<close>

definition build_payload :: "(nat \<Rightarrow> str) \<Rightarrow> json list \<Rightarrow> error + json" where
  "build_payload clock repos =
     (case transform_all clock 1 repos of
        Inl e \<Rightarrow> Inl e
      | Inr projects \<Rightarrow>
          Inr (JDict
            [(lit ''generatedAt'', JStr (clock 0)),
             (lit ''source'', JStr (lit ''aws-lambda'')),
             (lit ''projects'', JList projects)]))"

subsection \<open>\<^verbatim>\<open>put_to_s3\<close>\<close>

text \<open>
  \<open>Body\<close> holds the payload itself; the source uploads its compact serialisation
  (\<^verbatim>\<open>json.dumps\<close> with \<^verbatim>\<open>separators=(",", ":")\<close> and \<^verbatim>\<open>ensure_ascii=False\<close>, as UTF-8).
\<close>

definition put_object_request :: "str \<Rightarrow> str \<Rightarrow> json \<Rightarrow> s3_object" where
  "put_object_request bucket key payload =
     \<lparr>Bucket = bucket, Key = key, Body = payload,
      ContentType = lit ''application/json'',
      CacheControl = lit ''no-cache, no-store, must-revalidate''\<rparr>"

definition put_to_s3 :: "world \<Rightarrow> str \<Rightarrow> str \<Rightarrow> json \<Rightarrow> proc \<Rightarrow> (error + unit) \<times> proc" where
  "put_to_s3 w bucket key payload p =
     (case put_object w (put_object_request bucket key payload) of
        Some e \<Rightarrow> (Inl e, p)
      | None \<Rightarrow> (Inr (), p\<lparr>s3_puts := s3_puts p @ [put_object_request bucket key payload]\<rparr>))"

subsection \<open>\<^verbatim>\<open>lambda_handler\<close>\<close>

text \<open>
  Lines 146 to 151. \<open>pushed_at_key\<close> is the \<^verbatim>\<open>key\<close> lambda, \<open>sorted_repos\<close> and
  \<open>top_repos\<close> are the two local variables as functions of \<^verbatim>\<open>repos\<close> and \<^verbatim>\<open>repo_limit\<close>.
\<close>

definition pushed_at_key :: "json \<Rightarrow> error + json" where
  "pushed_at_key item =
     (case item of
        JDict d \<Rightarrow> Inr (dict_get d (lit ''pushed_at'') (JStr []))
      | _ \<Rightarrow> Inl AttributeError)"

definition sorted_repos :: "json list \<Rightarrow> error + json list" where
  "sorted_repos repos = sorted_reverse pushed_at_key repos"

definition top_repos :: "int \<Rightarrow> json list \<Rightarrow> error + json list" where
  "top_repos repo_limit repos =
     (case sorted_repos repos of
        Inl e \<Rightarrow> Inl e
      | Inr s \<Rightarrow> Inr (slice_to repo_limit s))"

text \<open>\<^verbatim>\<open>os.environ[name]\<close>.\<close>

definition environ_at :: "world \<Rightarrow> str \<Rightarrow> error + str" where
  "environ_at w name = (case environ w name of None \<Rightarrow> Inl (KeyError name) | Some v \<Rightarrow> Inr v)"

text \<open>
  Lines 130 to 134: \<^verbatim>\<open>username\<close>, \<^verbatim>\<open>bucket\<close>, \<^verbatim>\<open>key\<close>, \<^verbatim>\<open>secret_arn\<close> and \<^verbatim>\<open>repo_limit\<close>, read
  in this order. \<^verbatim>\<open>REPO_LIMIT\<close> defaults to \<^verbatim>\<open>"5"\<close>, which \<^verbatim>\<open>int\<close> reads as 5.
\<close>

definition read_config :: "world \<Rightarrow> error + (str \<times> str \<times> str \<times> str \<times> int)" where
  "read_config w =
     (case environ_at w (lit ''GITHUB_USERNAME'') of
        Inl e \<Rightarrow> Inl e
      | Inr username \<Rightarrow>
     (case environ_at w (lit ''SITE_BUCKET_NAME'') of
        Inl e \<Rightarrow> Inl e
      | Inr bucket \<Rightarrow>
     (let key = (case environ w (lit ''PROJECTS_OBJECT_KEY'') of
                   None \<Rightarrow> lit ''projects.json'' | Some k \<Rightarrow> k)
      in
     (case environ_at w (lit ''GITHUB_TOKEN_SECRET_ARN'') of
        Inl e \<Rightarrow> Inl e
      | Inr secret_arn \<Rightarrow>
     (case (case environ w (lit ''REPO_LIMIT'') of
              None \<Rightarrow> Some 5 | Some s \<Rightarrow> int_of_str w s) of
        None \<Rightarrow> Inl ValueError
      | Some repo_limit \<Rightarrow> Inr (username, bucket, key, secret_arn, repo_limit))))))"

definition api_url :: "str \<Rightarrow> str" where
  "api_url username =
     lit ''https://api.github.com/users/'' @ username @ lit ''/repos?per_page=100&sort=updated''"

definition invocation_result :: "str \<Rightarrow> str \<Rightarrow> nat \<Rightarrow> json" where
  "invocation_result bucket key n =
     JDict [(lit ''status'', JStr (lit ''ok'')),
            (lit ''bucket'', JStr bucket),
            (lit ''key'', JStr key),
            (lit ''count'', JInt (int n))]"

text \<open>
  \<^verbatim>\<open>lambda_handler(event, context)\<close>; the event and the context are not used. No
  exception is caught: each one ends the invocation with the process as it is then.
\<close>

definition lambda_handler :: "world \<Rightarrow> proc \<Rightarrow> (error + json) \<times> proc" where
  "lambda_handler w p =
     (case read_config w of
        Inl e \<Rightarrow> (Inl e, p)
      | Inr (username, bucket, key, secret_arn, repo_limit) \<Rightarrow>
     (case load_token w secret_arn p of
        (Inl e, p1) \<Rightarrow> (Inl e, p1)
      | (Inr token, p1) \<Rightarrow>
     (case github_request w (api_url username) token of
        Inl e \<Rightarrow> (Inl e, p1)
      | Inr (JList repos) \<Rightarrow>
          (case top_repos repo_limit repos of
             Inl e \<Rightarrow> (Inl e, p1)
           | Inr kept \<Rightarrow>
          (case build_payload (now w) kept of
             Inl e \<Rightarrow> (Inl e, p1)
           | Inr payload \<Rightarrow>
          (case put_to_s3 w bucket key payload p1 of
             (Inl e, p2) \<Rightarrow> (Inl e, p2)
           | (Inr u, p2) \<Rightarrow> (Inr (invocation_result bucket key (length kept)), p2))))
      | Inr other \<Rightarrow> (Inl UnexpectedPayloadShape, p1))))"

section \<open>Notions used to state the properties\<close>

subsection \<open>Raw repositories and their sort key\<close>

text \<open>
  A raw repository as the data model describes it: a mapping whose last-push field is a
  string or is absent. \<open>pushed_at_of\<close> is its last push, the empty string when the field is
  absent.
\<close>

fun raw_repository :: "json \<Rightarrow> bool" where
  "raw_repository (JDict d) =
     (case map_of d (lit ''pushed_at'') of
        None \<Rightarrow> True
      | Some (JStr s) \<Rightarrow> True
      | Some _ \<Rightarrow> False)"
| "raw_repository _ = False"

definition pushed_at_of :: "json \<Rightarrow> str" where
  "pushed_at_of r =
     (case r of
        JDict d \<Rightarrow> (case map_of d (lit ''pushed_at'') of Some (JStr s) \<Rightarrow> s | _ \<Rightarrow> [])
      | _ \<Rightarrow> [])"

text \<open>
  A repository as the API may send it: \<^verbatim>\<open>pushed_at\<close> may also be present and null.
\<close>

fun api_repository :: "json \<Rightarrow> bool" where
  "api_repository (JDict d) =
     (case map_of d (lit ''pushed_at'') of
        None \<Rightarrow> True
      | Some (JStr s) \<Rightarrow> True
      | Some JNull \<Rightarrow> True
      | Some _ \<Rightarrow> False)"
| "api_repository _ = False"

fun null_pushed_at :: "json \<Rightarrow> bool" where
  "null_pushed_at (JDict d) = (map_of d (lit ''pushed_at'') = Some JNull)"
| "null_pushed_at _ = False"

text \<open>
  The insertion sort of \<open>sort_lt\<close> when every key is a string, on the strings themselves:
  no comparison can fail. \<open>tag\<close> leads back to the keys of the program.
\<close>

fun ins_str :: "str \<times> 'a \<Rightarrow> (str \<times> 'a) list \<Rightarrow> (str \<times> 'a) list" where
  "ins_str x [] = [x]"
| "ins_str x (y # ys) = (if fst x < fst y then x # y # ys else y # ins_str x ys)"

definition tag :: "str \<times> 'a \<Rightarrow> json \<times> 'a" where
  "tag p = (JStr (fst p), snd p)"

definition decorate :: "json list \<Rightarrow> (str \<times> json) list" where
  "decorate xs = map (\<lambda>r. (pushed_at_of r, r)) xs"

definition isort_rev :: "json list \<Rightarrow> (str \<times> json) list" where
  "isort_rev xs = foldl (\<lambda>a x. ins_str x a) [] (rev (decorate xs))"

subsection \<open>Token candidates\<close>

text \<open>
  A value the loops of \<^verbatim>\<open>_load_token\<close> accept: a string with something left after
  \<^verbatim>\<open>strip()\<close>. A parsed secret holds a token when one of the values of the mapping, or one
  of the items of the sequence, is such a value.
\<close>

fun usable :: "json \<Rightarrow> bool" where
  "usable (JStr s) = (strip s \<noteq> [])"
| "usable _ = False"

definition holds_token :: "json \<Rightarrow> bool" where
  "holds_token payload =
     (case payload of
        JDict d \<Rightarrow> list_ex usable (map snd d)
      | JList items \<Rightarrow> list_ex usable items
      | _ \<Rightarrow> False)"

subsection \<open>Successive resolutions in one process\<close>

text \<open>
  The calls of \<^verbatim>\<open>_load_token\<close> a process makes, one after the other, each with the
  world of its invocation; the results in order, and the process at the end.
\<close>

fun resolve_all :: "(world \<times> str) list \<Rightarrow> proc \<Rightarrow> (error + str) list \<times> proc" where
  "resolve_all [] p = ([], p)"
| "resolve_all ((w, secret_arn) # calls) p =
     (case load_token w secret_arn p of
        (r, p1) \<Rightarrow> (case resolve_all calls p1 of (rs, p2) \<Rightarrow> (r # rs, p2)))"

subsection \<open>A sample world\<close>

text \<open>
  A world for concrete runs: the environment is \<open>env\<close>, Secrets Manager answers
  \<open>secret\<close>, the network answers \<open>reply\<close>, S3 accepts every object, \<^verbatim>\<open>json.loads\<close> parses the
  texts listed in \<open>parses\<close> to the values listed with them and rejects every other text,
  \<^verbatim>\<open>int\<close> reads the string \<^verbatim>\<open>"2"\<close> only, and the bytes of a body are its characters.
\<close>

definition sample_world ::
  "(str \<rightharpoonup> str) \<Rightarrow> str option \<Rightarrow> (str \<times> json) list \<Rightarrow> wire \<Rightarrow> world" where
  "sample_world env secret parses reply =
     \<lparr>environ = env,
      get_secret_value = (\<lambda>_. Inr secret),
      urlopen = (\<lambda>_ _. reply),
      put_object = (\<lambda>_. None),
      now = (\<lambda>_. lit ''2024-01-01T00:00:00+00:00''),
      json_loads = map_of parses,
      int_of_str = (\<lambda>s. if s = lit ''2'' then Some 2 else None),
      decode = (\<lambda>_ b. Some (map of_char b)),
      decode_replace = (\<lambda>b. map of_char b)\<rparr>"

text \<open>An environment with the three required variables and no others.\<close>

definition sample_env :: "str \<rightharpoonup> str" where
  "sample_env =
     [lit ''GITHUB_USERNAME'' \<mapsto> lit ''octocat'',
      lit ''SITE_BUCKET_NAME'' \<mapsto> lit ''site'',
      lit ''GITHUB_TOKEN_SECRET_ARN'' \<mapsto> lit ''arn'']"

section \<open>Sorting and truncation\<close>

lemma pushed_at_key_raw:
  "raw_repository r \<Longrightarrow> pushed_at_key r = Inr (JStr (pushed_at_of r))"
  by (cases r)
    (auto simp: pushed_at_key_def pushed_at_of_def dict_get_def split: option.splits json.splits)

lemma keys_of_raw:
  "list_all raw_repository xs \<Longrightarrow>
   keys_of pushed_at_key xs = Inr (map (\<lambda>r. tag (pushed_at_of r, r)) xs)"
  by (induction xs) (simp_all add: pushed_at_key_raw tag_def)

lemma insort_lt_tag: "insort_lt (tag x) (map tag ys) = Inr (map tag (ins_str x ys))"
  by (induction ys) (simp_all add: tag_def)

lemma sort_lt_tag:
  "sort_lt (map tag acc) (map tag xs) = Inr (map tag (foldl (\<lambda>a x. ins_str x a) acc xs))"
  by (induction xs arbitrary: acc) (simp_all add: insort_lt_tag)

lemma mset_ins_str: "mset (ins_str x ys) = add_mset x (mset ys)"
  by (induction ys) simp_all

lemma set_ins_str: "set (ins_str x ys) = insert x (set ys)"
  by (induction ys) auto

lemma sorted_ins_str: "sorted (map fst ys) \<Longrightarrow> sorted (map fst (ins_str x ys))"
  by (induction ys) (auto simp: set_ins_str)

lemma filter_ins_str_other:
  "fst x \<noteq> k \<Longrightarrow> filter (\<lambda>y. fst y = k) (ins_str x ys) = filter (\<lambda>y. fst y = k) ys"
  by (induction ys) simp_all

text \<open>An element goes behind the elements of its own key: this is stability.\<close>

lemma filter_ins_str_same:
  "sorted (map fst ys) \<Longrightarrow>
   filter (\<lambda>y. fst y = fst x) (ins_str x ys) = filter (\<lambda>y. fst y = fst x) ys @ [x]"
proof (induction ys)
  case Nil
  then show ?case by simp
next
  case (Cons y ys)
  show ?case
  proof (cases "fst x < fst y")
    case True
    with Cons.prems have "\<forall>z \<in> set (y # ys). fst x < fst z"
      by auto
    then have "filter (\<lambda>z. fst z = fst x) (y # ys) = []"
      by (auto simp: filter_empty_conv)
    with True show ?thesis by simp
  next
    case False
    with Cons show ?thesis by simp
  qed
qed

lemma mset_foldl_ins: "mset (foldl (\<lambda>a x. ins_str x a) acc xs) = mset acc + mset xs"
  by (induction xs arbitrary: acc) (simp_all add: mset_ins_str)

lemma sorted_foldl_ins:
  "sorted (map fst acc) \<Longrightarrow> sorted (map fst (foldl (\<lambda>a x. ins_str x a) acc xs))"
  by (induction xs arbitrary: acc) (simp_all add: sorted_ins_str)

lemma filter_foldl_ins:
  "sorted (map fst acc) \<Longrightarrow>
   filter (\<lambda>y. fst y = k) (foldl (\<lambda>a x. ins_str x a) acc xs) =
   filter (\<lambda>y. fst y = k) acc @ filter (\<lambda>y. fst y = k) xs"
proof (induction xs arbitrary: acc)
  case Nil
  then show ?case by simp
next
  case (Cons x xs)
  have "filter (\<lambda>y. fst y = k) (ins_str x acc) =
        filter (\<lambda>y. fst y = k) acc @ filter (\<lambda>y. fst y = k) [x]"
    using Cons.prems by (cases "fst x = k") (auto simp: filter_ins_str_same filter_ins_str_other)
  with Cons.IH [OF sorted_ins_str [OF Cons.prems]] show ?case by simp
qed

lemma sorted_repos_raw:
  assumes "list_all raw_repository repos"
  shows "sorted_repos repos = Inr (rev (map snd (isort_rev repos)))"
proof -
  have "keys_of pushed_at_key repos = Inr (map tag (decorate repos))"
    using assms by (simp add: keys_of_raw decorate_def)
  moreover have "sort_lt [] (rev (map tag (decorate repos))) = Inr (map tag (isort_rev repos))"
    using sort_lt_tag [of "[]" "rev (decorate repos)"] by (simp add: rev_map isort_rev_def)
  moreover have "map snd (map tag ys) = map snd ys" for ys :: "(str \<times> json) list"
    by (simp add: tag_def)
  ultimately show ?thesis
    by (simp add: sorted_repos_def sorted_reverse_def)
qed

lemma isort_rev_keys: "p \<in> set (isort_rev xs) \<Longrightarrow> fst p = pushed_at_of (snd p)"
proof -
  assume "p \<in> set (isort_rev xs)"
  then have "p \<in># mset (isort_rev xs)" by simp
  then have "p \<in> set (decorate xs)"
    by (simp add: isort_rev_def mset_foldl_ins)
  then show ?thesis by (auto simp: decorate_def)
qed

lemma mset_isort_rev: "mset (map snd (isort_rev xs)) = mset xs"
proof -
  have "mset (isort_rev xs) = mset (decorate xs)"
    by (simp add: isort_rev_def mset_foldl_ins)
  then have "image_mset snd (mset (isort_rev xs)) = image_mset snd (mset (decorate xs))"
    by simp
  then show ?thesis
    by (simp add: decorate_def image_mset.compositionality comp_def)
qed

lemma sorted_isort_rev: "sorted (map pushed_at_of (map snd (isort_rev xs)))"
proof -
  have "sorted (map fst (isort_rev xs))"
    by (simp add: isort_rev_def sorted_foldl_ins)
  moreover have "map fst (isort_rev xs) = map pushed_at_of (map snd (isort_rev xs))"
    by (simp add: isort_rev_keys)
  ultimately show ?thesis by simp
qed

lemma filter_isort_rev:
  "filter (\<lambda>r. pushed_at_of r = k) (rev (map snd (isort_rev xs))) =
   filter (\<lambda>r. pushed_at_of r = k) xs"
proof -
  have "filter (\<lambda>r. pushed_at_of r = k) (map snd (isort_rev xs)) =
        map snd (filter (\<lambda>p. pushed_at_of (snd p) = k) (isort_rev xs))"
    by (simp add: filter_map comp_def)
  also have "filter (\<lambda>p. pushed_at_of (snd p) = k) (isort_rev xs) =
             filter (\<lambda>p. fst p = k) (isort_rev xs)"
    by (rule filter_cong) (simp_all add: isort_rev_keys)
  also have "\<dots> = filter (\<lambda>p. fst p = k) (rev (decorate xs))"
    using filter_foldl_ins [of "[]" k "rev (decorate xs)"] by (simp add: isort_rev_def)
  also have "map snd \<dots> = rev (filter (\<lambda>r. pushed_at_of r = k) xs)"
    by (simp add: decorate_def rev_filter [symmetric] filter_map comp_def rev_map)
  finally show ?thesis
    by (simp add: rev_filter [symmetric])
qed

text \<open>
  Where every fetched record is a raw repository as the data model describes it (a mapping
  whose \<^verbatim>\<open>pushed_at\<close> is a string or is absent), the sort of the handler succeeds and
  returns a permutation of the list in descending order of \<^verbatim>\<open>pushed_at\<close>, a record without
  the key counting as the empty string, which no string is below, so that it comes last;
  records of equal key keep their order in the fetched list; and when \<^verbatim>\<open>repo_limit\<close> is at
  least the number of fetched records, the truncation keeps the whole sorted list. The
  hypothesis is needed: it leaves out the fetched lists with a null \<^verbatim>\<open>pushed_at\<close>, on which
  the sort raises (below).
\<close>

theorem sorted_repos_descending_stable:
  assumes "list_all raw_repository repos"
  shows "\<exists>s. sorted_repos repos = Inr s \<and>
             mset s = mset repos \<and>
             sorted_wrt (\<lambda>a b. pushed_at_of b \<le> pushed_at_of a) s \<and>
             (\<forall>k. filter (\<lambda>r. pushed_at_of r = k) s = filter (\<lambda>r. pushed_at_of r = k) repos) \<and>
             (int (length repos) \<le> repo_limit \<longrightarrow> top_repos repo_limit repos = Inr s)"
proof -
  let ?s = "rev (map snd (isort_rev repos))"
  have run: "sorted_repos repos = Inr ?s"
    using assms by (rule sorted_repos_raw)
  have perm: "mset ?s = mset repos"
    using mset_isort_rev [of repos] by simp
  have desc: "sorted_wrt (\<lambda>a b. pushed_at_of b \<le> pushed_at_of a) ?s"
    using sorted_isort_rev [of repos] by (simp add: sorted_wrt_rev sorted_map sorted_wrt_map)
  have len: "length ?s = length repos"
    using perm by (metis size_mset)
  have all: "top_repos repo_limit repos = Inr ?s" if "int (length repos) \<le> repo_limit"
    using that run len by (simp add: top_repos_def slice_to_def)
  show ?thesis
    using run perm desc all filter_isort_rev by blast
qed

theorem sorted_repos_descending_stable_witness:
  "list_all raw_repository
     [JDict [(lit ''name'', JStr (lit ''a'')), (lit ''pushed_at'', JStr (lit ''2023-01-01''))],
      JDict [(lit ''name'', JStr (lit ''b''))],
      JDict [(lit ''name'', JStr (lit ''c'')), (lit ''pushed_at'', JStr (lit ''2024-06-01''))],
      JDict [(lit ''name'', JStr (lit ''d'')), (lit ''pushed_at'', JStr (lit ''2023-01-01''))]] \<and>
   top_repos 4
     [JDict [(lit ''name'', JStr (lit ''a'')), (lit ''pushed_at'', JStr (lit ''2023-01-01''))],
      JDict [(lit ''name'', JStr (lit ''b''))],
      JDict [(lit ''name'', JStr (lit ''c'')), (lit ''pushed_at'', JStr (lit ''2024-06-01''))],
      JDict [(lit ''name'', JStr (lit ''d'')), (lit ''pushed_at'', JStr (lit ''2023-01-01''))]] =
   Inr
     [JDict [(lit ''name'', JStr (lit ''c'')), (lit ''pushed_at'', JStr (lit ''2024-06-01''))],
      JDict [(lit ''name'', JStr (lit ''a'')), (lit ''pushed_at'', JStr (lit ''2023-01-01''))],
      JDict [(lit ''name'', JStr (lit ''d'')), (lit ''pushed_at'', JStr (lit ''2023-01-01''))],
      JDict [(lit ''name'', JStr (lit ''b''))]]"
  (is "list_all raw_repository ?xs \<and> top_repos 4 ?xs = Inr ?ys")
proof -
  have raw: "list_all raw_repository ?xs"
    by (simp add: lit_def)
  from sorted_repos_descending_stable [OF raw, of 4]
  obtain s where s: "sorted_repos ?xs = Inr s" and all: "top_repos 4 ?xs = Inr s"
    by auto
  have "sorted_repos ?xs = Inr ?ys"
    by (simp add: sorted_repos_def sorted_reverse_def pushed_at_key_def dict_get_def lit_def)
  with s all raw show ?thesis by simp
qed

text \<open>
  Claim C1. The records of the claim, with \<^verbatim>\<open>pushed_at\<close> values \<^verbatim>\<open>"2023-01-01"\<close>, \<^verbatim>\<open>null\<close>
  and \<^verbatim>\<open>"2024-06-01"\<close>, and \<^verbatim>\<open>repo_limit = 2\<close>: the key of the second record is \<^verbatim>\<open>None\<close>,
  since the default of \<^verbatim>\<open>item.get("pushed_at", "")\<close> only stands in for an absent key, and
  \<^verbatim>\<open>sorted\<close> raises \<^verbatim>\<open>TypeError\<close> on comparing it with a string. The step returns no list:
  neither the order of the claim nor the dropping of the null record is what the code does.
\<close>

theorem top_repos_null_pushed_at:
  "top_repos 2
     [JDict [(lit ''pushed_at'', JStr (lit ''2023-01-01''))],
      JDict [(lit ''pushed_at'', JNull)],
      JDict [(lit ''pushed_at'', JStr (lit ''2024-06-01''))]] = Inl TypeError"
  by (simp add: top_repos_def sorted_repos_def sorted_reverse_def pushed_at_key_def
      dict_get_def lit_def)

text \<open>
  When the second record has no \<^verbatim>\<open>pushed_at\<close> key at all, the step does return the two
  dated records, latest first.
\<close>

lemma top_repos_absent_pushed_at:
  "top_repos 2
     [JDict [(lit ''pushed_at'', JStr (lit ''2023-01-01''))],
      JDict [],
      JDict [(lit ''pushed_at'', JStr (lit ''2024-06-01''))]] =
   Inr [JDict [(lit ''pushed_at'', JStr (lit ''2024-06-01''))],
        JDict [(lit ''pushed_at'', JStr (lit ''2023-01-01''))]]"
  by (simp add: top_repos_def sorted_repos_def sorted_reverse_def pushed_at_key_def
      dict_get_def lit_def slice_to_def)

text \<open>
  That list is not a special case: whenever two or more repositories are fetched and
  one of them has a null \<^verbatim>\<open>pushed_at\<close>, the others having a string or no key, the sort
  raises \<^verbatim>\<open>TypeError\<close>. \<^verbatim>\<open>None < x\<close> and \<^verbatim>\<open>x < None\<close> raise for every \<open>x\<close>, so this does not
  depend on which keys the sort compares with the null one.
\<close>

lemma py_lt_null_left: "py_lt JNull b = Inl TypeError"
  by (cases b) simp_all

lemma py_lt_null_right: "py_lt a JNull = Inl TypeError"
  by (cases a) simp_all

lemma insort_lt_strings:
  assumes "\<forall>p \<in> set acc. \<exists>s. fst p = JStr s" and "fst x = JStr t"
  shows "\<exists>acc'. insort_lt x acc = Inr acc' \<and> set acc' = insert x (set acc)"
  using assms(1)
proof (induction acc)
  case Nil
  then show ?case by simp
next
  case (Cons a acc)
  then obtain s where a: "fst a = JStr s" by auto
  from Cons obtain acc' where "insort_lt x acc = Inr acc'" "set acc' = insert x (set acc)"
    by auto
  with a assms(2) show ?case by (cases "t < s") auto
qed

lemma sort_lt_null:
  assumes "\<forall>p \<in> set acc. \<exists>s. fst p = JStr s"
    and "\<forall>p \<in> set xs. fst p = JNull \<or> (\<exists>s. fst p = JStr s)"
    and "\<exists>p \<in> set xs. fst p = JNull"
    and "acc \<noteq> [] \<or> 2 \<le> length xs"
  shows "sort_lt acc xs = Inl TypeError"
  using assms
proof (induction xs arbitrary: acc)
  case Nil
  then show ?case by simp
next
  case (Cons x xs)
  show ?case
  proof (cases "fst x = JNull")
    case True
    show ?thesis
    proof (cases acc)
      case Nil
      with Cons.prems(4) obtain y ys where "xs = y # ys"
        by (cases xs) auto
      with Nil True show ?thesis
        by (simp add: py_lt_null_right del: py_lt.simps)
    next
      case (Cons a as)
      with True show ?thesis
        by (simp add: py_lt_null_left del: py_lt.simps)
    qed
  next
    case False
    with Cons.prems(2) obtain t where t: "fst x = JStr t" by auto
    from insort_lt_strings [OF Cons.prems(1) t]
    obtain acc' where acc': "insort_lt x acc = Inr acc'" "set acc' = insert x (set acc)"
      by auto
    have "sort_lt acc' xs = Inl TypeError"
    proof (rule Cons.IH)
      show "\<forall>p \<in> set acc'. \<exists>s. fst p = JStr s"
        using acc'(2) t Cons.prems(1) by auto
      show "\<forall>p \<in> set xs. fst p = JNull \<or> (\<exists>s. fst p = JStr s)"
        using Cons.prems(2) by simp
      show "\<exists>p \<in> set xs. fst p = JNull"
        using Cons.prems(3) False by auto
      show "acc' \<noteq> [] \<or> 2 \<le> length xs"
        using acc'(2) by auto
    qed
    with acc'(1) show ?thesis by simp
  qed
qed

lemma keys_of_api:
  assumes "list_all api_repository xs"
  shows "\<exists>ks. keys_of pushed_at_key xs = Inr ks \<and> length ks = length xs \<and>
              (\<forall>p \<in> set ks. fst p = JNull \<or> (\<exists>s. fst p = JStr s)) \<and>
              (list_ex null_pushed_at xs \<longrightarrow> (\<exists>p \<in> set ks. fst p = JNull))"
  using assms
proof (induction xs)
  case Nil
  then show ?case by simp
next
  case (Cons x xs)
  then obtain ks where ks: "keys_of pushed_at_key xs = Inr ks" "length ks = length xs"
    "\<forall>p \<in> set ks. fst p = JNull \<or> (\<exists>s. fst p = JStr s)"
    "list_ex null_pushed_at xs \<longrightarrow> (\<exists>p \<in> set ks. fst p = JNull)"
    by auto
  from Cons.prems obtain d where d: "x = JDict d" by (cases x) auto
  obtain k where k: "pushed_at_key x = Inr k" "k = JNull \<or> (\<exists>s. k = JStr s)"
    "null_pushed_at x \<longrightarrow> k = JNull"
    using Cons.prems d
    by (auto simp: pushed_at_key_def dict_get_def split: option.splits json.splits)
  with ks show ?case by auto
qed

lemma sorted_repos_null_pushed_at:
  assumes "list_all api_repository repos"
    and "list_ex null_pushed_at repos"
    and "2 \<le> length repos"
  shows "sorted_repos repos = Inl TypeError"
proof -
  from keys_of_api [OF assms(1)] assms(2)
  obtain ks where ks: "keys_of pushed_at_key repos = Inr ks" "length ks = length repos"
    "\<forall>p \<in> set ks. fst p = JNull \<or> (\<exists>s. fst p = JStr s)" "\<exists>p \<in> set ks. fst p = JNull"
    by auto
  have "sort_lt [] (rev ks) = Inl TypeError"
    by (rule sort_lt_null) (use ks assms(3) in auto)
  with ks(1) show ?thesis
    by (simp add: sorted_repos_def sorted_reverse_def)
qed

text \<open>
  Claim C2. The claim speaks of every fetched list. On the fetched list with \<^verbatim>\<open>pushed_at\<close>
  values \<^verbatim>\<open>"2023-01-01"\<close>, \<^verbatim>\<open>null\<close> and \<^verbatim>\<open>"2024-06-01"\<close>, which the API may send, and with
  \<^verbatim>\<open>repo_limit = 3\<close>, the number of fetched records, the sort raises \<^verbatim>\<open>TypeError\<close>: there is no
  sorted list, and no fetched record appears in any output. The code does not sort such a
  list by \<^verbatim>\<open>pushed_at\<close> descending, nor keep every fetched record, as the claim says it
  does for every fetched list.
\<close>

theorem sorted_repos_null_pushed_at_untruncated:
  "sorted_repos
     [JDict [(lit ''pushed_at'', JStr (lit ''2023-01-01''))],
      JDict [(lit ''pushed_at'', JNull)],
      JDict [(lit ''pushed_at'', JStr (lit ''2024-06-01''))]] = Inl TypeError \<and>
   int (length
     [JDict [(lit ''pushed_at'', JStr (lit ''2023-01-01''))],
      JDict [(lit ''pushed_at'', JNull)],
      JDict [(lit ''pushed_at'', JStr (lit ''2024-06-01''))]]) \<le> 3 \<and>
   top_repos 3
     [JDict [(lit ''pushed_at'', JStr (lit ''2023-01-01''))],
      JDict [(lit ''pushed_at'', JNull)],
      JDict [(lit ''pushed_at'', JStr (lit ''2024-06-01''))]] = Inl TypeError"
  by (simp add: top_repos_def sorted_repos_def sorted_reverse_def pushed_at_key_def
      dict_get_def lit_def)

text \<open>
  The whole handler on the same three records, as a reply of the API: the invocation ends with
  the \<^verbatim>\<open>TypeError\<close>, the token cached and nothing put to S3.
\<close>

lemma lambda_handler_null_pushed_at:
  "lambda_handler
     (sample_world (sample_env(lit ''REPO_LIMIT'' \<mapsto> lit ''2''))
        (Some (lit ''ghp_abc''))
        [(lit ''[{\"pushed_at\": \"2023-01-01\"}, {\"pushed_at\": null}, {\"pushed_at\": \"2024-06-01\"}]'',
          JList
            [JDict [(lit ''pushed_at'', JStr (lit ''2023-01-01''))],
             JDict [(lit ''pushed_at'', JNull)],
             JDict [(lit ''pushed_at'', JStr (lit ''2024-06-01''))]])]
        (Replied 200 None
           ''[{\"pushed_at\": \"2023-01-01\"}, {\"pushed_at\": null}, {\"pushed_at\": \"2024-06-01\"}]''))
     cold =
   (Inl TypeError,
    \<lparr>cached_secret = Some (lit ''ghp_abc''), cache_writes = [lit ''ghp_abc''],
     secret_calls = [lit ''arn''], s3_puts = []\<rparr>)"
  by (simp add: lambda_handler_def read_config_def environ_at_def sample_world_def sample_env_def
      cold_def load_token_def fetch_token_def secret_token_def strip_def py_isspace_def
      startswith_def github_request_def request_headers_def api_url_def
      top_repos_def sorted_repos_def sorted_reverse_def pushed_at_key_def dict_get_def lit_def)

section \<open>Resolving the token\<close>

subsection \<open>Candidates\<close>

lemma strip_Nil: "strip [] = []"
  by (simp add: strip_def)

lemma first_token_nonempty: "first_token vs = Some t \<Longrightarrow> t \<noteq> []"
  by (induction vs) (auto split: json.splits if_splits)

lemma first_token_None: "first_token vs = None \<longleftrightarrow> \<not> list_ex usable vs"
proof (induction vs)
  case Nil
  then show ?case by simp
next
  case (Cons v vs)
  then show ?case by (cases v) auto
qed

lemma candidate_value_nonempty: "candidate_value payload = Some t \<Longrightarrow> t \<noteq> []"
  by (auto simp: candidate_value_def split: json.splits option.splits dest: first_token_nonempty)

lemma usable_dict_get: "usable (dict_get d k JNull) \<Longrightarrow> list_ex usable (map snd d)"
proof -
  assume u: "usable (dict_get d k JNull)"
  then obtain v where v: "map_of d k = Some v" "usable v"
    by (auto simp: dict_get_def split: option.splits)
  then have "(k, v) \<in> set d" by (simp add: map_of_SomeD)
  with v show ?thesis by (force simp: list_ex_iff)
qed

lemma candidate_value_None: "candidate_value payload = None \<longleftrightarrow> \<not> holds_token payload"
proof (cases payload)
  case (JDict d)
  let ?by_key = "first_token (map (\<lambda>key. dict_get d key JNull) token_keys)"
  show ?thesis
  proof (cases "list_ex usable (map snd d)")
    case True
    then have "first_token (map snd d) \<noteq> None"
      by (simp add: first_token_None)
    with True JDict show ?thesis
      by (cases ?by_key) (auto simp: candidate_value_def holds_token_def)
  next
    case False
    then have "\<not> list_ex usable (map (\<lambda>key. dict_get d key JNull) token_keys)"
      using usable_dict_get [of d] by (auto simp: list_ex_iff)
    then have by_key: "?by_key = None"
      by (simp add: first_token_None)
    have by_value: "first_token (map snd d) = None"
      using False by (simp add: first_token_None)
    show ?thesis
      using False JDict by (simp add: candidate_value_def holds_token_def by_key by_value)
  qed
qed (simp_all add: candidate_value_def holds_token_def first_token_None)

lemma secret_token_nonempty: "secret_token loads ss = Inr t \<Longrightarrow> t \<noteq> []"
  by (auto simp: secret_token_def Let_def split: option.splits if_splits dest: candidate_value_nonempty)

lemma startswith_nonempty: "startswith x (lit ''{'') \<Longrightarrow> x \<noteq> []"
  by (auto simp: startswith_def lit_def)

lemma strip_nonempty: "strip s \<noteq> [] \<Longrightarrow> s \<noteq> []"
  by (auto simp: strip_def)


subsection \<open>The cache\<close>

lemma fetch_token_fst:
  "get_secret_value w arn = Inr ss \<Longrightarrow> fst (fetch_token w arn p) = secret_token (json_loads w) ss"
  by (simp add: fetch_token_def Let_def split: sum.splits)

lemma fetch_token_cases:
  assumes "fetch_token w arn p = (r, p')"
  shows "(\<exists>e. r = Inl e \<and> p' = p\<lparr>secret_calls := secret_calls p @ [arn]\<rparr>) \<or>
         (\<exists>t. r = Inr t \<and> t \<noteq> [] \<and>
              p' = p\<lparr>secret_calls := secret_calls p @ [arn], cached_secret := Some t,
                     cache_writes := cache_writes p @ [t]\<rparr>)"
proof (cases "get_secret_value w arn")
  case (Inl e)
  then have "fetch_token w arn p = (Inl e, p\<lparr>secret_calls := secret_calls p @ [arn]\<rparr>)"
    by (simp add: fetch_token_def)
  with assms show ?thesis by auto
next
  case (Inr ss)
  show ?thesis
  proof (cases "secret_token (json_loads w) ss")
    case (Inl e)
    with Inr have "fetch_token w arn p = (Inl e, p\<lparr>secret_calls := secret_calls p @ [arn]\<rparr>)"
      by (simp add: fetch_token_def)
    with assms show ?thesis by auto
  next
    case inner: (Inr t)
    then have "t \<noteq> []" by (rule secret_token_nonempty)
    moreover from Inr inner have "fetch_token w arn p =
        (Inr t, p\<lparr>secret_calls := secret_calls p @ [arn], cached_secret := Some t,
                   cache_writes := cache_writes p @ [t]\<rparr>)"
      by (simp add: fetch_token_def)
    ultimately show ?thesis using assms by auto
  qed
qed

lemma load_token_warm:
  "cached_secret p = Some t \<Longrightarrow> t \<noteq> [] \<Longrightarrow> load_token w arn p = (Inr t, p)"
  by (simp add: load_token_def)

lemma load_token_cold_eq: "cached_secret p = None \<Longrightarrow> load_token w arn p = fetch_token w arn p"
  by (simp add: load_token_def)

lemma resolve_all_warm:
  "cached_secret p = Some t \<Longrightarrow> t \<noteq> [] \<Longrightarrow>
   resolve_all calls p = (replicate (length calls) (Inr t), p)"
  by (induction calls) (auto simp: load_token_warm)

lemma resolve_all_cold:
  assumes "cached_secret p = None" and "resolve_all calls p = (rs, p')"
  shows "(\<exists>es. rs = map Inl es \<and> length es = length calls \<and> cached_secret p' = None \<and>
               cache_writes p' = cache_writes p \<and>
               secret_calls p' = secret_calls p @ map snd calls) \<or>
         (\<exists>es t n. rs = map Inl es @ Inr t # replicate n (Inr t) \<and>
               length rs = length calls \<and> t \<noteq> [] \<and> cached_secret p' = Some t \<and>
               cache_writes p' = cache_writes p @ [t] \<and>
               secret_calls p' = secret_calls p @ map snd (take (Suc (length es)) calls))"
  using assms
proof (induction calls arbitrary: p rs p')
  case Nil
  then show ?case by simp
next
  case (Cons c calls)
  obtain w arn where c: "c = (w, arn)" by (cases c)
  obtain r p1 where step: "fetch_token w arn p = (r, p1)" by (cases "fetch_token w arn p")
  obtain rs1 where rest: "resolve_all calls p1 = (rs1, p')" and rs: "rs = r # rs1"
    using Cons.prems step c by (auto simp: load_token_cold_eq split: prod.splits)
  from fetch_token_cases [OF step] show ?case
  proof (elim disjE exE conjE)
    fix e
    assume r: "r = Inl e" and p1: "p1 = p\<lparr>secret_calls := secret_calls p @ [arn]\<rparr>"
    then have "cached_secret p1 = None" using Cons.prems(1) by simp
    from Cons.IH [OF this rest] show ?thesis
    proof (elim disjE exE conjE)
      fix es
      assume "rs1 = map Inl es" "length es = length calls" "cached_secret p' = None"
        "cache_writes p' = cache_writes p1" "secret_calls p' = secret_calls p1 @ map snd calls"
      then have "rs = map Inl (e # es) \<and> length (e # es) = length (c # calls) \<and>
                 cached_secret p' = None \<and> cache_writes p' = cache_writes p \<and>
                 secret_calls p' = secret_calls p @ map snd (c # calls)"
        using rs r p1 c by simp
      then show ?thesis by blast
    next
      fix es t n
      assume "rs1 = map Inl es @ Inr t # replicate n (Inr t)" "length rs1 = length calls"
        "t \<noteq> []" "cached_secret p' = Some t" "cache_writes p' = cache_writes p1 @ [t]"
        "secret_calls p' = secret_calls p1 @ map snd (take (Suc (length es)) calls)"
      then have "rs = map Inl (e # es) @ Inr t # replicate n (Inr t) \<and>
                 length rs = length (c # calls) \<and> t \<noteq> [] \<and> cached_secret p' = Some t \<and>
                 cache_writes p' = cache_writes p @ [t] \<and>
                 secret_calls p' = secret_calls p @ map snd (take (Suc (length (e # es))) (c # calls))"
        using rs r p1 c by simp
      then show ?thesis by blast
    qed
  next
    fix t
    assume r: "r = Inr t" and t: "t \<noteq> []"
      and p1: "p1 = p\<lparr>secret_calls := secret_calls p @ [arn], cached_secret := Some t,
                       cache_writes := cache_writes p @ [t]\<rparr>"
    then have "cached_secret p1 = Some t" by simp
    from resolve_all_warm [OF this t, of calls] rest
    have "rs1 = replicate (length calls) (Inr t)" and "p' = p1" by simp_all
    then have "rs = map Inl [] @ Inr t # replicate (length calls) (Inr t) \<and>
               length rs = length (c # calls) \<and> t \<noteq> [] \<and> cached_secret p' = Some t \<and>
               cache_writes p' = cache_writes p @ [t] \<and>
               secret_calls p' = secret_calls p @ map snd (take (Suc (length ([]::error list))) (c # calls))"
      using rs r p1 c t by simp
    then show ?thesis by blast
  qed
qed

text \<open>
  Claim C3. In a process that starts with nothing cached, whatever the worlds of its
  successive resolutions are: \<^verbatim>\<open>_cached_secret\<close> is assigned at most once, exactly by the
  first resolution that succeeds; the resolutions before it each called Secrets Manager
  and failed; the first success and every resolution after it return the same token; and
  from then on a resolution leaves the process as it is, so it neither calls Secrets
  Manager nor assigns the cache. When no resolution succeeds, the cache is never assigned.
\<close>

theorem load_token_caches_once:
  assumes "resolve_all calls cold = (rs, p')"
  shows "(\<exists>es. rs = map Inl es \<and> length es = length calls \<and> cached_secret p' = None \<and>
               cache_writes p' = [] \<and> secret_calls p' = map snd calls) \<or>
         (\<exists>es t n. rs = map Inl es @ Inr t # replicate n (Inr t) \<and>
               length rs = length calls \<and> t \<noteq> [] \<and> cached_secret p' = Some t \<and>
               cache_writes p' = [t] \<and>
               secret_calls p' = map snd (take (Suc (length es)) calls) \<and>
               (\<forall>w secret_arn. load_token w secret_arn p' = (Inr t, p')))"
proof -
  have start: "cached_secret cold = None" "cache_writes cold = []" "secret_calls cold = []"
    by (simp_all add: cold_def)
  from resolve_all_cold [OF start(1) assms] show ?thesis
  proof (elim disjE exE conjE)
    fix es
    assume "rs = map Inl es" "length es = length calls" "cached_secret p' = None"
      "cache_writes p' = cache_writes cold" "secret_calls p' = secret_calls cold @ map snd calls"
    then have "rs = map Inl es \<and> length es = length calls \<and> cached_secret p' = None \<and>
               cache_writes p' = [] \<and> secret_calls p' = map snd calls"
      using start by simp
    then show ?thesis by blast
  next
    fix es t n
    assume *: "rs = map Inl es @ Inr t # replicate n (Inr t)" "length rs = length calls"
      "t \<noteq> []" "cached_secret p' = Some t" "cache_writes p' = cache_writes cold @ [t]"
      "secret_calls p' = secret_calls cold @ map snd (take (Suc (length es)) calls)"
    then have "\<forall>w secret_arn. load_token w secret_arn p' = (Inr t, p')"
      by (simp add: load_token_warm)
    with * start have "rs = map Inl es @ Inr t # replicate n (Inr t) \<and>
               length rs = length calls \<and> t \<noteq> [] \<and> cached_secret p' = Some t \<and>
               cache_writes p' = [t] \<and>
               secret_calls p' = map snd (take (Suc (length es)) calls) \<and>
               (\<forall>w secret_arn. load_token w secret_arn p' = (Inr t, p'))"
      by simp
    then show ?thesis by blast
  qed
qed

theorem load_token_caches_once_witness:
  "resolve_all
     [(sample_world Map.empty None [] (Unreachable []), lit ''arn''),
      (sample_world Map.empty (Some (lit '' ghp_abc '')) [] (Unreachable []), lit ''arn''),
      (sample_world Map.empty (Some (lit ''ghp_new'')) [] (Unreachable []), lit ''arn''),
      (sample_world Map.empty None [] (Unreachable []), lit ''arn'')]
     cold =
   ([Inl SecretMissing, Inr (lit ''ghp_abc''), Inr (lit ''ghp_abc''), Inr (lit ''ghp_abc'')],
    \<lparr>cached_secret = Some (lit ''ghp_abc''), cache_writes = [lit ''ghp_abc''],
     secret_calls = [lit ''arn'', lit ''arn''], s3_puts = []\<rparr>) \<and>
   load_token (sample_world Map.empty (Some (lit ''ghp_new'')) [] (Unreachable [])) (lit ''arn'')
     \<lparr>cached_secret = Some (lit ''ghp_abc''), cache_writes = [lit ''ghp_abc''],
      secret_calls = [lit ''arn'', lit ''arn''], s3_puts = []\<rparr> =
   (Inr (lit ''ghp_abc''),
    \<lparr>cached_secret = Some (lit ''ghp_abc''), cache_writes = [lit ''ghp_abc''],
     secret_calls = [lit ''arn'', lit ''arn''], s3_puts = []\<rparr>)"
  (is "resolve_all ?calls cold = (?rs, ?p) \<and> load_token ?w ?arn ?p = (Inr ?t, ?p)")
proof -
  have run: "resolve_all ?calls cold = (?rs, ?p)"
    by (simp add: load_token_def fetch_token_def secret_token_def sample_world_def cold_def
        strip_def py_isspace_def startswith_def lit_def)
  from load_token_caches_once [OF run] have "load_token ?w ?arn ?p = (Inr ?t, ?p)"
    by auto
  with run show ?thesis by simp
qed

subsection \<open>From the secret to the token\<close>

lemma load_token_cold_fst:
  "cached_secret p = None \<Longrightarrow> get_secret_value w arn = Inr ss \<Longrightarrow>
   fst (load_token w arn p) = secret_token (json_loads w) ss"
  by (simp add: load_token_cold_eq fetch_token_fst)

text \<open>
  Claim C6. When the resolver fetches a secret (nothing is cached) and the trimmed payload
  is not empty and does not start with \<^verbatim>\<open>{\<close>, the resolution returns the trimmed payload
  unchanged.
\<close>

theorem load_token_plain_text:
  assumes "cached_secret p = None"
    and "get_secret_value w secret_arn = Inr (Some s)"
    and "strip s \<noteq> []"
    and "\<not> startswith (strip s) (lit ''{'')"
  shows "fst (load_token w secret_arn p) = Inr (strip s)"
proof -
  have "s \<noteq> []" using assms(3) by (rule strip_nonempty)
  then have "secret_token (json_loads w) (Some s) = Inr (strip s)"
    using assms(3,4) by (simp add: secret_token_def)
  then show ?thesis
    using assms(1,2) by (simp add: load_token_cold_fst)
qed

theorem load_token_plain_text_witness:
  "cached_secret cold = None \<and>
   get_secret_value (sample_world Map.empty (Some (lit ''  ghp_abc123 '')) [] (Unreachable []))
     (lit ''arn'') = Inr (Some (lit ''  ghp_abc123 '')) \<and>
   strip (lit ''  ghp_abc123 '') = lit ''ghp_abc123'' \<and>
   lit ''ghp_abc123'' \<noteq> [] \<and>
   \<not> startswith (lit ''ghp_abc123'') (lit ''{'') \<and>
   fst (load_token (sample_world Map.empty (Some (lit ''  ghp_abc123 '')) [] (Unreachable []))
     (lit ''arn'') cold) = Inr (lit ''ghp_abc123'')"
proof -
  let ?w = "sample_world Map.empty (Some (lit ''  ghp_abc123 '')) [] (Unreachable [])"
  have c: "cached_secret cold = None" by (simp add: cold_def)
  have g: "get_secret_value ?w (lit ''arn'') = Inr (Some (lit ''  ghp_abc123 ''))"
    by (simp add: sample_world_def)
  have s: "strip (lit ''  ghp_abc123 '') = lit ''ghp_abc123''"
    by (simp add: strip_def py_isspace_def lit_def)
  have n: "strip (lit ''  ghp_abc123 '') \<noteq> []"
    by (simp add: s) (simp add: lit_def)
  have b: "\<not> startswith (strip (lit ''  ghp_abc123 '')) (lit ''{'')"
    by (simp add: s) (simp add: startswith_def lit_def)
  from load_token_plain_text [OF c g n b] c g s n b show ?thesis
    by simp
qed

text \<open>
  Claim C7 as stated fails on the empty string: Secrets Manager returns a string payload,
  its trimmed form has length zero, and the resolution fails with \<open>SecretMissing\<close>, not
  with \<open>SecretEmpty\<close>, because \<^verbatim>\<open>not secret_string\<close> holds of \<^verbatim>\<open>""\<close> as it does of \<^verbatim>\<open>None\<close>.
\<close>

theorem load_token_empty_string_counterexample:
  "get_secret_value (sample_world Map.empty (Some []) [] (Unreachable [])) (lit ''arn'') =
     Inr (Some []) \<and>
   length (strip []) = 0 \<and>
   fst (load_token (sample_world Map.empty (Some []) [] (Unreachable [])) (lit ''arn'') cold) =
     Inl SecretMissing \<and>
   fst (load_token (sample_world Map.empty (Some []) [] (Unreachable [])) (lit ''arn'') cold) \<noteq>
     Inl SecretEmpty"
  by (simp add: load_token_def fetch_token_def secret_token_def sample_world_def cold_def
      strip_def)

text \<open>
  Claim C7, amended. When the resolver fetches a secret (nothing is cached) and Secrets
  Manager answers, the resolution fails with \<open>SecretMissing\<close> exactly when the answer has
  no string payload or an empty one; with \<open>SecretEmpty\<close> exactly when the payload is not
  empty and its trimmed form is; with \<open>SecretJSONNoToken\<close> exactly when the trimmed payload
  starts with \<^verbatim>\<open>{\<close>, parses as JSON and holds no token; and a trimmed payload that starts
  with \<^verbatim>\<open>{\<close> and does not parse is returned as the token.
\<close>

theorem load_token_errors:
  assumes "cached_secret p = None"
    and "get_secret_value w secret_arn = Inr payload"
  shows "(fst (load_token w secret_arn p) = Inl SecretMissing \<longleftrightarrow>
            payload = None \<or> payload = Some []) \<and>
         (fst (load_token w secret_arn p) = Inl SecretEmpty \<longleftrightarrow>
            (\<exists>s. payload = Some s \<and> s \<noteq> [] \<and> strip s = [])) \<and>
         (fst (load_token w secret_arn p) = Inl SecretJSONNoToken \<longleftrightarrow>
            (\<exists>s j. payload = Some s \<and> startswith (strip s) (lit ''{'') \<and>
                   json_loads w (strip s) = Some j \<and> \<not> holds_token j)) \<and>
         (\<forall>s. payload = Some s \<and> startswith (strip s) (lit ''{'') \<and>
              json_loads w (strip s) = None \<longrightarrow>
              fst (load_token w secret_arn p) = Inr (strip s))"
proof -
  have res: "fst (load_token w secret_arn p) = secret_token (json_loads w) payload"
    using assms by (rule load_token_cold_fst)
  show ?thesis
  proof (cases payload)
    case None
    then show ?thesis by (simp add: res secret_token_def)
  next
    case (Some s)
    show ?thesis
    proof (cases "s = []")
      case True
      with Some show ?thesis
        by (simp add: res secret_token_def strip_Nil startswith_def lit_def)
    next
      case ne: False
      show ?thesis
      proof (cases "strip s = []")
        case True
        with Some ne show ?thesis
          by (simp add: res secret_token_def startswith_def lit_def)
      next
        case nb: False
        show ?thesis
        proof (cases "startswith (strip s) (lit ''{'')")
          case False
          with Some ne nb show ?thesis by (simp add: res secret_token_def)
        next
          case True
          show ?thesis
          proof (cases "json_loads w (strip s)")
            case None
            with Some ne nb True show ?thesis by (simp add: res secret_token_def)
          next
            case parsed: (Some j)
            show ?thesis
            proof (cases "candidate_value j")
              case None
              then have "\<not> holds_token j" by (simp add: candidate_value_None)
              with None Some ne nb True parsed show ?thesis
                by (simp add: res secret_token_def)
            next
              case found: (Some c)
              then have "holds_token j" using candidate_value_None [of j] by simp
              with found Some ne nb True parsed show ?thesis
                by (simp add: res secret_token_def)
            qed
          qed
        qed
      qed
    qed
  qed
qed

theorem load_token_errors_witness:
  "cached_secret cold = None \<and>
   fst (load_token (sample_world Map.empty None [] (Unreachable [])) (lit ''arn'') cold) =
     Inl SecretMissing \<and>
   fst (load_token (sample_world Map.empty (Some (lit '' '')) [] (Unreachable []))
     (lit ''arn'') cold) = Inl SecretEmpty \<and>
   fst (load_token (sample_world Map.empty (Some (lit ''{\"n\": 1}''))
     [(lit ''{\"n\": 1}'', JDict [(lit ''n'', JInt 1)])] (Unreachable [])) (lit ''arn'') cold) =
     Inl SecretJSONNoToken \<and>
   fst (load_token (sample_world Map.empty (Some (lit ''{not json '')) [] (Unreachable []))
     (lit ''arn'') cold) = Inr (lit ''{not json'')"
proof -
  let ?none = "sample_world Map.empty None [] (Unreachable [])"
  let ?blank = "sample_world Map.empty (Some (lit '' '')) [] (Unreachable [])"
  let ?json = "sample_world Map.empty (Some (lit ''{\"n\": 1}''))
     [(lit ''{\"n\": 1}'', JDict [(lit ''n'', JInt 1)])] (Unreachable [])"
  let ?text = "sample_world Map.empty (Some (lit ''{not json '')) [] (Unreachable [])"
  have c: "cached_secret cold = None" by (simp add: cold_def)
  have s1: "strip (lit '' '') = []" "lit '' '' \<noteq> []"
    by (simp_all add: strip_def py_isspace_def lit_def)
  have s2: "strip (lit ''{\"n\": 1}'') = lit ''{\"n\": 1}''"
    by (simp add: strip_def py_isspace_def lit_def)
  have s3: "strip (lit ''{not json '') = lit ''{not json''"
    by (simp add: strip_def py_isspace_def lit_def)
  have b: "startswith (lit ''{\"n\": 1}'') (lit ''{'')" "startswith (lit ''{not json'') (lit ''{'')"
    by (simp_all add: startswith_def lit_def)
  have h: "\<not> holds_token (JDict [(lit ''n'', JInt 1)])"
    by (simp add: holds_token_def)
  have "fst (load_token ?none (lit ''arn'') cold) = Inl SecretMissing"
    using load_token_errors [OF c, of ?none "lit ''arn''" None] by (simp add: sample_world_def)
  moreover have "fst (load_token ?blank (lit ''arn'') cold) = Inl SecretEmpty"
    using load_token_errors [OF c, of ?blank "lit ''arn''" "Some (lit '' '')"] s1
    by (simp add: sample_world_def)
  moreover have "fst (load_token ?json (lit ''arn'') cold) = Inl SecretJSONNoToken"
    using load_token_errors [OF c, of ?json "lit ''arn''" "Some (lit ''{\"n\": 1}'')"] s2 b h
    by (simp add: sample_world_def)
  moreover have "fst (load_token ?text (lit ''arn'') cold) = Inr (lit ''{not json'')"
    using load_token_errors [OF c, of ?text "lit ''arn''" "Some (lit ''{not json '')"] s3 b
    by (simp add: sample_world_def)
  ultimately show ?thesis using c by simp
qed

subsection \<open>The priority of the keys\<close>

lemma first_token_skip: "\<not> list_ex usable xs \<Longrightarrow> first_token (xs @ ys) = first_token ys"
proof (induction xs)
  case Nil
  then show ?case by simp
next
  case (Cons x xs)
  then show ?case by (cases x) auto
qed

text \<open>
  Claim C5 as stated fails on values with surrounding or only white space. For the mapping
  with \<^verbatim>\<open>pat\<close> \<^verbatim>\<open>"abc"\<close> and \<^verbatim>\<open>token\<close> \<^verbatim>\<open>" "\<close>, both non-empty strings, the value of \<^verbatim>\<open>pat\<close> is
  returned, not that of \<^verbatim>\<open>token\<close>; for the mapping with \<^verbatim>\<open>token\<close> \<^verbatim>\<open>" ghp_abc "\<close> the result is
  \<^verbatim>\<open>"ghp_abc"\<close>, not the value found.
\<close>

theorem load_token_key_priority_counterexample:
  "map_of [(lit ''pat'', JStr (lit ''abc'')), (lit ''token'', JStr (lit '' ''))] (lit ''token'') =
     Some (JStr (lit '' '')) \<and>
   lit '' '' \<noteq> [] \<and>
   map_of [(lit ''pat'', JStr (lit ''abc'')), (lit ''token'', JStr (lit '' ''))] (lit ''pat'') =
     Some (JStr (lit ''abc'')) \<and>
   lit ''abc'' \<noteq> [] \<and>
   fst (load_token
          (sample_world Map.empty (Some (lit ''{\"pat\": \"abc\", \"token\": \" \"}''))
             [(lit ''{\"pat\": \"abc\", \"token\": \" \"}'',
               JDict [(lit ''pat'', JStr (lit ''abc'')), (lit ''token'', JStr (lit '' ''))])]
             (Unreachable []))
          (lit ''arn'') cold) = Inr (lit ''abc'') \<and>
   Inr (lit ''abc'') \<noteq> (Inr (lit '' '') :: error + str) \<and>
   fst (load_token
          (sample_world Map.empty (Some (lit ''{\"token\": \" ghp_abc \"}''))
             [(lit ''{\"token\": \" ghp_abc \"}'',
               JDict [(lit ''token'', JStr (lit '' ghp_abc ''))])]
             (Unreachable []))
          (lit ''arn'') cold) = Inr (lit ''ghp_abc'') \<and>
   Inr (lit ''ghp_abc'') \<noteq> (Inr (lit '' ghp_abc '') :: error + str)"
  by (simp add: load_token_def fetch_token_def secret_token_def candidate_value_def
      token_keys_def dict_get_def sample_world_def cold_def strip_def py_isspace_def
      startswith_def lit_def)

text \<open>
  Claim C5, amended. When the resolver fetches a secret (nothing is cached) whose trimmed
  payload starts with \<^verbatim>\<open>{\<close> and parses as a JSON mapping, the keys \<^verbatim>\<open>token\<close>, \<^verbatim>\<open>Token\<close>, \<^verbatim>\<open>PAT\<close>,
  \<^verbatim>\<open>pat\<close>, \<^verbatim>\<open>github_token\<close>, \<^verbatim>\<open>githubToken\<close>, \<^verbatim>\<open>value\<close> are searched in this order, and the
  resolution returns the trimmed value of the first of them whose value is a string that
  is not empty once trimmed. In particular, when \<^verbatim>\<open>token\<close> and \<^verbatim>\<open>pat\<close> both have such values,
  the trimmed value of \<^verbatim>\<open>token\<close> is returned.
\<close>

theorem load_token_key_priority:
  assumes "cached_secret p = None"
    and "get_secret_value w secret_arn = Inr (Some s)"
    and "startswith (strip s) (lit ''{'')"
    and "json_loads w (strip s) = Some (JDict d)"
  shows "(\<forall>before key after v.
            token_keys = before @ key # after \<and>
            map_of d key = Some (JStr v) \<and> strip v \<noteq> [] \<and>
            (\<forall>k \<in> set before. \<forall>u. map_of d k = Some (JStr u) \<longrightarrow> strip u = []) \<longrightarrow>
            fst (load_token w secret_arn p) = Inr (strip v)) \<and>
         (\<forall>a b. map_of d (lit ''token'') = Some (JStr a) \<and> strip a \<noteq> [] \<and>
                map_of d (lit ''pat'') = Some (JStr b) \<and> strip b \<noteq> [] \<longrightarrow>
                fst (load_token w secret_arn p) = Inr (strip a))"
proof -
  have ne: "strip s \<noteq> []" "s \<noteq> []"
    using assms(3) startswith_nonempty strip_nonempty by blast+
  have res: "fst (load_token w secret_arn p) =
             (case candidate_value (JDict d) of None \<Rightarrow> Inl SecretJSONNoToken | Some c \<Rightarrow> Inr c)"
    using assms ne by (simp add: load_token_cold_fst secret_token_def)
  have main: "fst (load_token w secret_arn p) = Inr (strip v)"
    if keys: "token_keys = before @ key # after"
      and hit: "map_of d key = Some (JStr v)" "strip v \<noteq> []"
      and miss: "\<forall>k \<in> set before. \<forall>u. map_of d k = Some (JStr u) \<longrightarrow> strip u = []"
    for before key after v
  proof -
    let ?get = "\<lambda>key. dict_get d key JNull"
    have "\<not> usable (?get k)" if "k \<in> set before" for k
    proof (cases "map_of d k")
      case None
      then show ?thesis by (simp add: dict_get_def)
    next
      case (Some x)
      with miss that show ?thesis by (cases x) (auto simp: dict_get_def)
    qed
    then have "\<not> list_ex usable (map ?get before)"
      by (simp add: list_ex_iff)
    then have "first_token (map ?get token_keys) = first_token (?get key # map ?get after)"
      using first_token_skip [of "map ?get before"] by (simp add: keys)
    also have "\<dots> = Some (strip v)"
      using hit by (simp add: dict_get_def)
    finally show ?thesis
      by (simp add: res candidate_value_def)
  qed
  have "token_keys = [] @ lit ''token'' # tl token_keys"
    by (simp add: token_keys_def)
  from main [OF this] have "fst (load_token w secret_arn p) = Inr (strip a)"
    if "map_of d (lit ''token'') = Some (JStr a)" "strip a \<noteq> []" for a
    using that by simp
  with main show ?thesis by blast
qed

theorem load_token_key_priority_witness:
  "cached_secret cold = None \<and>
   startswith (strip (lit ''{\"pat\": \"p1\", \"token\": \" t1 \"}'')) (lit ''{'') \<and>
   map_of [(lit ''pat'', JStr (lit ''p1'')), (lit ''token'', JStr (lit '' t1 ''))] (lit ''token'') =
     Some (JStr (lit '' t1 '')) \<and>
   map_of [(lit ''pat'', JStr (lit ''p1'')), (lit ''token'', JStr (lit '' t1 ''))] (lit ''pat'') =
     Some (JStr (lit ''p1'')) \<and>
   strip (lit '' t1 '') = lit ''t1'' \<and>
   fst (load_token
          (sample_world Map.empty (Some (lit ''{\"pat\": \"p1\", \"token\": \" t1 \"}''))
             [(lit ''{\"pat\": \"p1\", \"token\": \" t1 \"}'',
               JDict [(lit ''pat'', JStr (lit ''p1'')), (lit ''token'', JStr (lit '' t1 ''))])]
             (Unreachable []))
          (lit ''arn'') cold) = Inr (lit ''t1'') \<and>
   token_keys = [lit ''token'', lit ''Token'', lit ''PAT''] @ lit ''pat'' #
                [lit ''github_token'', lit ''githubToken'', lit ''value''] \<and>
   fst (load_token
          (sample_world Map.empty (Some (lit ''{\"pat\": \"p1\", \"Token\": 7}''))
             [(lit ''{\"pat\": \"p1\", \"Token\": 7}'',
               JDict [(lit ''pat'', JStr (lit ''p1'')), (lit ''Token'', JInt 7)])]
             (Unreachable []))
          (lit ''arn'') cold) = Inr (lit ''p1'')"
proof -
  let ?s = "lit ''{\"pat\": \"p1\", \"token\": \" t1 \"}''"
  let ?d = "[(lit ''pat'', JStr (lit ''p1'')), (lit ''token'', JStr (lit '' t1 ''))]"
  let ?w = "sample_world Map.empty (Some ?s) [(?s, JDict ?d)] (Unreachable [])"
  let ?s' = "lit ''{\"pat\": \"p1\", \"Token\": 7}''"
  let ?d' = "[(lit ''pat'', JStr (lit ''p1'')), (lit ''Token'', JInt 7)]"
  let ?w' = "sample_world Map.empty (Some ?s') [(?s', JDict ?d')] (Unreachable [])"
  have c: "cached_secret cold = None" by (simp add: cold_def)
  have g: "get_secret_value ?w (lit ''arn'') = Inr (Some ?s)"
    "get_secret_value ?w' (lit ''arn'') = Inr (Some ?s')"
    by (simp_all add: sample_world_def)
  have st: "strip ?s = ?s" "strip ?s' = ?s'"
    by (simp_all add: strip_def py_isspace_def lit_def)
  have b: "startswith (strip ?s) (lit ''{'')" "startswith (strip ?s') (lit ''{'')"
    by (simp_all add: st) (simp_all add: startswith_def lit_def)
  have l: "json_loads ?w (strip ?s) = Some (JDict ?d)" "json_loads ?w' (strip ?s') = Some (JDict ?d')"
    by (simp_all add: st sample_world_def)
  have m: "map_of ?d (lit ''token'') = Some (JStr (lit '' t1 ''))"
    "map_of ?d (lit ''pat'') = Some (JStr (lit ''p1''))"
    "map_of ?d' (lit ''pat'') = Some (JStr (lit ''p1''))"
    by (simp_all add: lit_def)
  have t: "strip (lit '' t1 '') = lit ''t1''" "strip (lit ''p1'') = lit ''p1''"
    "lit ''t1'' \<noteq> []" "lit ''p1'' \<noteq> []"
    by (simp_all add: strip_def py_isspace_def lit_def)
  have k: "token_keys = [lit ''token'', lit ''Token'', lit ''PAT''] @ lit ''pat'' #
                [lit ''github_token'', lit ''githubToken'', lit ''value'']"
    by (simp add: token_keys_def)
  have e: "\<forall>k \<in> set [lit ''token'', lit ''Token'', lit ''PAT''].
             \<forall>u. map_of ?d' k = Some (JStr u) \<longrightarrow> strip u = []"
    by (simp add: lit_def)
  from load_token_key_priority [OF c g(1) b(1) l(1)] m t
  have r1: "fst (load_token ?w (lit ''arn'') cold) = Inr (lit ''t1'')"
    by auto
  from load_token_key_priority [OF c g(2) b(2) l(2)] k m(3) t e
  have r2: "fst (load_token ?w' (lit ''arn'') cold) = Inr (lit ''p1'')"
    by (metis (no_types, lifting))
  from c b(1) m(1,2) t(1) r1 k r2 show ?thesis by simp
qed

section \<open>The remote client\<close>

text \<open>
  Claim C9. When the reply to the request has a status outside 200..299, the client
  fails with \<open>GitHubHTTPError\<close> carrying that status and the text of the reply's body.
\<close>

theorem github_request_http_error:
  assumes "urlopen w url (request_headers token) = Replied status cs body"
    and "\<not> (200 \<le> status \<and> status < 300)"
  shows "github_request w url token = Inl (GitHubHTTPError status (decode_replace w body))"
  using assms by (auto simp: github_request_def)

theorem github_request_http_error_witness:
  "urlopen (sample_world Map.empty None [] (Replied 403 None ''rate limit exceeded''))
     (api_url (lit ''octocat'')) (request_headers (lit ''ghp_abc'')) =
     Replied 403 None ''rate limit exceeded'' \<and>
   \<not> (200 \<le> (403::int) \<and> (403::int) < 300) \<and>
   github_request (sample_world Map.empty None [] (Replied 403 None ''rate limit exceeded''))
     (api_url (lit ''octocat'')) (lit ''ghp_abc'') =
     Inl (GitHubHTTPError 403 (lit ''rate limit exceeded''))"
proof -
  let ?w = "sample_world Map.empty None [] (Replied 403 None ''rate limit exceeded'')"
  have a: "urlopen ?w (api_url (lit ''octocat'')) (request_headers (lit ''ghp_abc'')) =
           Replied 403 None ''rate limit exceeded''"
    by (simp add: sample_world_def)
  have b: "\<not> (200 \<le> (403::int) \<and> (403::int) < 300)" by simp
  have c: "decode_replace ?w ''rate limit exceeded'' = lit ''rate limit exceeded''"
    by (simp add: sample_world_def lit_def)
  from github_request_http_error [OF a b] a b c show ?thesis by simp
qed

section \<open>The transformer\<close>

lemma project_record_lookup:
  fixes out :: "(str \<times> json) list"
  assumes "out =
    [(lit ''repo'', a), (lit ''displayName'', b), (lit ''summary'', c), (lit ''description'', e),
     (lit ''htmlUrl'', f), (lit ''homepage'', g), (lit ''stars'', h), (lit ''language'', i),
     (lit ''topics'', t), (lit ''lastPush'', l), (lit ''sync'', y)]"
  shows "map_of out (lit ''topics'') = Some t"
    and "map_of out (lit ''lastPush'') = Some l"
    and "map_of out (lit ''sync'') = Some y"
  by (simp_all add: assms lit_def)

lemma sync_block_lookup:
  "map_of [(lit ''status'', a), (lit ''statusMessage'', b), (lit ''fetchedAt'', c)]
     (lit ''status'') = Some a"
  "map_of [(lit ''status'', a), (lit ''statusMessage'', b), (lit ''fetchedAt'', c)]
     (lit ''statusMessage'') = Some b"
  by (simp_all add: lit_def)

lemma last_push_null:
  assumes "\<forall>s. map_of d (lit ''pushed_at'') \<noteq> Some (JStr s)"
  shows "(case dict_get d (lit ''pushed_at'') JNull of
            JStr s \<Rightarrow> dict_get d (lit ''pushed_at'') JNull
          | _ \<Rightarrow> JNull) = JNull"
  using assms by (auto simp: dict_get_def split: option.splits json.splits)

lemma transform_repo_dict:
  obtains out where "transform_repo fetched_at (JDict d) = Inr (JDict out)"
    and "map_of out (lit ''topics'') = Some (dict_get d (lit ''topics'') (JList []))"
    and "map_of out (lit ''lastPush'') =
           Some (case dict_get d (lit ''pushed_at'') JNull of
                   JStr s \<Rightarrow> dict_get d (lit ''pushed_at'') JNull
                 | _ \<Rightarrow> JNull)"
    and "map_of out (lit ''sync'') =
           Some (JDict [(lit ''status'', JStr (lit ''ok'')), (lit ''statusMessage'', JNull),
                        (lit ''fetchedAt'', JStr fetched_at)])"
proof -
  obtain out where run: "transform_repo fetched_at (JDict d) = Inr (JDict out)"
    and out: "out =
      [(lit ''repo'', dict_get d (lit ''full_name'') JNull),
       (lit ''displayName'', dict_get d (lit ''name'') JNull),
       (lit ''summary'', dict_get d (lit ''description'') JNull),
       (lit ''description'', dict_get d (lit ''description'') JNull),
       (lit ''htmlUrl'', dict_get d (lit ''html_url'') JNull),
       (lit ''homepage'', dict_get d (lit ''homepage'') JNull),
       (lit ''stars'', dict_get d (lit ''stargazers_count'') JNull),
       (lit ''language'', dict_get d (lit ''language'') JNull),
       (lit ''topics'', dict_get d (lit ''topics'') (JList [])),
       (lit ''lastPush'', (case dict_get d (lit ''pushed_at'') JNull of
                             JStr s \<Rightarrow> dict_get d (lit ''pushed_at'') JNull
                           | _ \<Rightarrow> JNull)),
       (lit ''sync'', JDict [(lit ''status'', JStr (lit ''ok'')), (lit ''statusMessage'', JNull),
                             (lit ''fetchedAt'', JStr fetched_at)])]"
    by (simp add: transform_repo_def Let_def)
  from run project_record_lookup [OF out] that show ?thesis
    by blast
qed

text \<open>
  Claim C4. On every dict the transformer returns a record and raises nothing: without a
  \<^verbatim>\<open>topics\<close> key in the input, \<^verbatim>\<open>topics\<close> is the empty list; when \<^verbatim>\<open>pushed_at\<close> is absent or
  is not a string, \<^verbatim>\<open>lastPush\<close> is null; and the \<^verbatim>\<open>sync\<close> block has \<^verbatim>\<open>status\<close> \<^verbatim>\<open>"ok"\<close> and
  \<^verbatim>\<open>statusMessage\<close> null.
\<close>

theorem transform_repo_total:
  "\<exists>out sync.
     transform_repo fetched_at (JDict d) = Inr (JDict out) \<and>
     (map_of d (lit ''topics'') = None \<longrightarrow> map_of out (lit ''topics'') = Some (JList [])) \<and>
     ((\<forall>s. map_of d (lit ''pushed_at'') \<noteq> Some (JStr s)) \<longrightarrow>
        map_of out (lit ''lastPush'') = Some JNull) \<and>
     map_of out (lit ''sync'') = Some (JDict sync) \<and>
     map_of sync (lit ''status'') = Some (JStr (lit ''ok'')) \<and>
     map_of sync (lit ''statusMessage'') = Some JNull"
proof -
  let ?sync = "[(lit ''status'', JStr (lit ''ok'')), (lit ''statusMessage'', JNull),
                (lit ''fetchedAt'', JStr fetched_at)]"
  obtain out where run: "transform_repo fetched_at (JDict d) = Inr (JDict out)"
    and topics: "map_of out (lit ''topics'') = Some (dict_get d (lit ''topics'') (JList []))"
    and last: "map_of out (lit ''lastPush'') =
           Some (case dict_get d (lit ''pushed_at'') JNull of
                   JStr s \<Rightarrow> dict_get d (lit ''pushed_at'') JNull
                 | _ \<Rightarrow> JNull)"
    and sync: "map_of out (lit ''sync'') = Some (JDict ?sync)"
    by (rule transform_repo_dict)
  have absent: "map_of d (lit ''topics'') = None \<longrightarrow> map_of out (lit ''topics'') = Some (JList [])"
    using topics by (simp add: dict_get_def)
  have null: "(\<forall>s. map_of d (lit ''pushed_at'') \<noteq> Some (JStr s)) \<longrightarrow>
              map_of out (lit ''lastPush'') = Some JNull"
    using last last_push_null [of d] by simp
  have status: "map_of ?sync (lit ''status'') = Some (JStr (lit ''ok''))"
    and message: "map_of ?sync (lit ''statusMessage'') = Some JNull"
    by (rule sync_block_lookup)+
  show ?thesis
    by (rule exI [of _ out], rule exI [of _ ?sync])
      (intro conjI run absent null sync status message)
qed

theorem transform_repo_total_witness:
  "map_of [(lit ''name'', JStr (lit ''site'')), (lit ''pushed_at'', JInt 1717200000)]
     (lit ''topics'') = None \<and>
   map_of [(lit ''name'', JStr (lit ''site'')), (lit ''pushed_at'', JInt 1717200000)]
     (lit ''pushed_at'') = Some (JInt 1717200000) \<and>
   (\<exists>out sync.
      transform_repo (lit ''2024-06-01T00:00:00+00:00'')
        (JDict [(lit ''name'', JStr (lit ''site'')), (lit ''pushed_at'', JInt 1717200000)]) =
        Inr (JDict out) \<and>
      map_of out (lit ''topics'') = Some (JList []) \<and>
      map_of out (lit ''lastPush'') = Some JNull \<and>
      map_of out (lit ''sync'') = Some (JDict sync) \<and>
      map_of sync (lit ''status'') = Some (JStr (lit ''ok'')) \<and>
      map_of sync (lit ''statusMessage'') = Some JNull)"
proof -
  let ?d = "[(lit ''name'', JStr (lit ''site'')), (lit ''pushed_at'', JInt 1717200000)]"
  have a: "map_of ?d (lit ''topics'') = None"
    and b: "map_of ?d (lit ''pushed_at'') = Some (JInt 1717200000)"
    by (simp_all add: lit_def)
  from b have c: "\<forall>s. map_of ?d (lit ''pushed_at'') \<noteq> Some (JStr s)"
    by simp
  from transform_repo_total [of "lit ''2024-06-01T00:00:00+00:00''" ?d] a b c
  show ?thesis by blast
qed

text \<open>
  Claim C10. A \<^verbatim>\<open>topics\<close> key that is present passes its value through unchanged, whatever
  the value is (null, a string); the empty list only stands in for an absent key. So
  \<^verbatim>\<open>topics\<close> of the output need not be a list.
\<close>

theorem transform_repo_topics_passthrough:
  "\<exists>out. transform_repo fetched_at (JDict d) = Inr (JDict out) \<and>
         (\<forall>v. map_of d (lit ''topics'') = Some v \<longrightarrow> map_of out (lit ''topics'') = Some v) \<and>
         (map_of d (lit ''topics'') = None \<longrightarrow> map_of out (lit ''topics'') = Some (JList []))"
proof -
  obtain out where run: "transform_repo fetched_at (JDict d) = Inr (JDict out)"
    and topics: "map_of out (lit ''topics'') = Some (dict_get d (lit ''topics'') (JList []))"
    by (rule transform_repo_dict)
  have present: "\<forall>v. map_of d (lit ''topics'') = Some v \<longrightarrow> map_of out (lit ''topics'') = Some v"
    using topics by (simp add: dict_get_def)
  have absent: "map_of d (lit ''topics'') = None \<longrightarrow> map_of out (lit ''topics'') = Some (JList [])"
    using topics by (simp add: dict_get_def)
  show ?thesis
    by (rule exI [of _ out]) (intro conjI run present absent)
qed

theorem transform_repo_topics_passthrough_witness:
  "map_of [(lit ''topics'', JNull)] (lit ''topics'') = Some JNull \<and>
   (\<exists>out. transform_repo [] (JDict [(lit ''topics'', JNull)]) = Inr (JDict out) \<and>
          map_of out (lit ''topics'') = Some JNull) \<and>
   map_of [(lit ''topics'', JStr (lit ''cli''))] (lit ''topics'') = Some (JStr (lit ''cli'')) \<and>
   (\<exists>out. transform_repo [] (JDict [(lit ''topics'', JStr (lit ''cli''))]) = Inr (JDict out) \<and>
          map_of out (lit ''topics'') = Some (JStr (lit ''cli'')))"
proof -
  have a: "map_of [(lit ''topics'', JNull)] (lit ''topics'') = Some JNull"
    and b: "map_of [(lit ''topics'', JStr (lit ''cli''))] (lit ''topics'') = Some (JStr (lit ''cli''))"
    by simp_all
  from transform_repo_topics_passthrough [of "[]" "[(lit ''topics'', JNull)]"] a
  have 1: "\<exists>out. transform_repo [] (JDict [(lit ''topics'', JNull)]) = Inr (JDict out) \<and>
          map_of out (lit ''topics'') = Some JNull"
    by auto
  from transform_repo_topics_passthrough [of "[]" "[(lit ''topics'', JStr (lit ''cli''))]"] b
  have 2: "\<exists>out. transform_repo [] (JDict [(lit ''topics'', JStr (lit ''cli''))]) = Inr (JDict out) \<and>
          map_of out (lit ''topics'') = Some (JStr (lit ''cli''))"
    by auto
  from a b 1 2 show ?thesis by blast
qed

section \<open>The orchestrator\<close>

lemma fetch_token_s3_puts: "fetch_token w arn p = (r, p1) \<Longrightarrow> s3_puts p1 = s3_puts p"
  using fetch_token_cases [of w arn p r p1] by auto

lemma load_token_s3_puts: "load_token w arn p = (r, p1) \<Longrightarrow> s3_puts p1 = s3_puts p"
  by (auto simp: load_token_def split: option.splits if_splits dest: fetch_token_s3_puts)

lemma put_to_s3_cases:
  "put_to_s3 w bucket key payload p = (r, p2) \<Longrightarrow>
   (\<exists>e. r = Inl e \<and> p2 = p) \<or>
   (r = Inr () \<and> put_object w (put_object_request bucket key payload) = None \<and>
    p2 = p\<lparr>s3_puts := s3_puts p @ [put_object_request bucket key payload]\<rparr>)"
  by (auto simp: put_to_s3_def split: option.splits)

lemma lambda_handler_config_error:
  "read_config w = Inl e \<Longrightarrow> lambda_handler w p = (Inl e, p)"
  by (simp add: lambda_handler_def)

lemma read_config_sample:
  "read_config (sample_world sample_env secret parses reply) =
   Inr (lit ''octocat'', lit ''site'', lit ''projects.json'', lit ''arn'', 5)"
  by (simp add: read_config_def environ_at_def sample_world_def sample_env_def lit_def)

text \<open>
  Claim C8. Once the configuration is read: an error of the resolution of the token, of
  the fetch, or of the check that the fetched value is a list is the result of the
  handler, and nothing has been put to S3; and when the handler has put anything to S3,
  then the token was resolved, the fetch returned a list, the sort with the truncation and
  the transformation of every kept record succeeded, and the one object put holds the
  complete payload.
\<close>

theorem lambda_handler_persists_last:
  assumes cfg: "read_config w = Inr (username, bucket, key, secret_arn, repo_limit)"
    and run: "lambda_handler w p = (res, p')"
  shows "(\<forall>e p1. load_token w secret_arn p = (Inl e, p1) \<longrightarrow>
            res = Inl e \<and> s3_puts p' = s3_puts p) \<and>
         (\<forall>token p1 e. load_token w secret_arn p = (Inr token, p1) \<and>
            github_request w (api_url username) token = Inl e \<longrightarrow>
            res = Inl e \<and> s3_puts p' = s3_puts p) \<and>
         (\<forall>token p1 v. load_token w secret_arn p = (Inr token, p1) \<and>
            github_request w (api_url username) token = Inr v \<and> (\<forall>repos. v \<noteq> JList repos) \<longrightarrow>
            res = Inl UnexpectedPayloadShape \<and> s3_puts p' = s3_puts p) \<and>
         (s3_puts p' \<noteq> s3_puts p \<longrightarrow>
            (\<exists>token p1 repos kept payload.
               load_token w secret_arn p = (Inr token, p1) \<and>
               github_request w (api_url username) token = Inr (JList repos) \<and>
               top_repos repo_limit repos = Inr kept \<and>
               build_payload (now w) kept = Inr payload \<and>
               put_object w (put_object_request bucket key payload) = None \<and>
               s3_puts p' = s3_puts p @ [put_object_request bucket key payload] \<and>
               res = Inr (invocation_result bucket key (length kept))))"
proof -
  obtain r1 p1 where tok: "load_token w secret_arn p = (r1, p1)"
    by (cases "load_token w secret_arn p")
  have keep: "s3_puts p1 = s3_puts p"
    using tok by (rule load_token_s3_puts)
  show ?thesis
  proof (cases r1)
    case (Inl e)
    with cfg run tok keep show ?thesis
      by (auto simp: lambda_handler_def)
  next
    case token: (Inr token)
    show ?thesis
    proof (cases "github_request w (api_url username) token")
      case (Inl e)
      with cfg run tok keep token show ?thesis
        by (auto simp: lambda_handler_def)
    next
      case fetched: (Inr v)
      show ?thesis
      proof (cases "\<exists>repos. v = JList repos")
        case False
        then have "lambda_handler w p = (Inl UnexpectedPayloadShape, p1)"
          using cfg tok token fetched by (cases v) (simp_all add: lambda_handler_def)
        with run tok keep token fetched False show ?thesis
          by auto
      next
        case True
        then obtain repos where v: "v = JList repos" ..
        show ?thesis
        proof (cases "top_repos repo_limit repos")
          case (Inl e)
          with cfg run tok keep token fetched v show ?thesis
            by (auto simp: lambda_handler_def)
        next
          case kept: (Inr kept)
          show ?thesis
          proof (cases "build_payload (now w) kept")
            case (Inl e)
            with cfg run tok keep token fetched v kept show ?thesis
              by (auto simp: lambda_handler_def)
          next
            case built: (Inr payload)
            obtain r2 p2 where put: "put_to_s3 w bucket key payload p1 = (r2, p2)"
              by (cases "put_to_s3 w bucket key payload p1")
            from put_to_s3_cases [OF put] show ?thesis
            proof (elim disjE exE conjE)
              fix e
              assume "r2 = Inl e" "p2 = p1"
              with cfg run tok keep token fetched v kept built put show ?thesis
                by (auto simp: lambda_handler_def)
            next
              assume "r2 = Inr ()"
                and ok: "put_object w (put_object_request bucket key payload) = None"
                and p2: "p2 = p1\<lparr>s3_puts := s3_puts p1 @ [put_object_request bucket key payload]\<rparr>"
              with cfg run tok token fetched v kept built put
              have "res = Inr (invocation_result bucket key (length kept))" and "p' = p2"
                by (auto simp: lambda_handler_def)
              with p2 keep tok token fetched v kept built ok show ?thesis
                by auto
            qed
          qed
        qed
      qed
    qed
  qed
qed

theorem lambda_handler_persists_last_witness:
  "fst (lambda_handler (sample_world sample_env None [] (Unreachable [])) cold) =
     Inl SecretMissing \<and>
   s3_puts (snd (lambda_handler (sample_world sample_env None [] (Unreachable [])) cold)) = [] \<and>
   fst (lambda_handler (sample_world sample_env (Some (lit ''ghp_abc'')) []
          (Replied 503 None ''unavailable'')) cold) =
     Inl (GitHubHTTPError 503 (lit ''unavailable'')) \<and>
   s3_puts (snd (lambda_handler (sample_world sample_env (Some (lit ''ghp_abc'')) []
          (Replied 503 None ''unavailable'')) cold)) = [] \<and>
   fst (lambda_handler (sample_world sample_env (Some (lit ''ghp_abc''))
          [(lit ''{\"message\": \"Not Found\"}'', JDict [(lit ''message'', JStr (lit ''Not Found''))])]
          (Replied 200 None ''{\"message\": \"Not Found\"}'')) cold) = Inl UnexpectedPayloadShape \<and>
   s3_puts (snd (lambda_handler (sample_world sample_env (Some (lit ''ghp_abc''))
          [(lit ''{\"message\": \"Not Found\"}'', JDict [(lit ''message'', JStr (lit ''Not Found''))])]
          (Replied 200 None ''{\"message\": \"Not Found\"}'')) cold)) = [] \<and>
   fst (lambda_handler (sample_world sample_env (Some (lit ''ghp_abc''))
          [(lit ''[{\"name\": \"site\"}]'', JList [JDict [(lit ''name'', JStr (lit ''site''))]])]
          (Replied 200 None ''[{\"name\": \"site\"}]'')) cold) =
     Inr (invocation_result (lit ''site'') (lit ''projects.json'') 1) \<and>
   map Key (s3_puts (snd (lambda_handler (sample_world sample_env (Some (lit ''ghp_abc''))
          [(lit ''[{\"name\": \"site\"}]'', JList [JDict [(lit ''name'', JStr (lit ''site''))]])]
          (Replied 200 None ''[{\"name\": \"site\"}]'')) cold))) = [lit ''projects.json'']"
proof -
  let ?missing = "sample_world sample_env None [] (Unreachable [])"
  let ?down = "sample_world sample_env (Some (lit ''ghp_abc'')) []
                 (Replied 503 None ''unavailable'')"
  let ?shape = "sample_world sample_env (Some (lit ''ghp_abc''))
          [(lit ''{\"message\": \"Not Found\"}'', JDict [(lit ''message'', JStr (lit ''Not Found''))])]
          (Replied 200 None ''{\"message\": \"Not Found\"}'')"
  let ?ok = "sample_world sample_env (Some (lit ''ghp_abc''))
          [(lit ''[{\"name\": \"site\"}]'', JList [JDict [(lit ''name'', JStr (lit ''site''))]])]
          (Replied 200 None ''[{\"name\": \"site\"}]'')"
  let ?warm = "\<lparr>cached_secret = Some (lit ''ghp_abc''), cache_writes = [lit ''ghp_abc''],
                secret_calls = [lit ''arn''], s3_puts = []\<rparr>"
  note defs = load_token_def fetch_token_def secret_token_def sample_world_def cold_def
    strip_def py_isspace_def startswith_def lit_def
  have run: "lambda_handler w cold = (fst (lambda_handler w cold), snd (lambda_handler w cold))"
    for w by simp
  have cold: "s3_puts cold = []" by (simp add: cold_def)
  have "load_token ?missing (lit ''arn'') cold =
          (Inl SecretMissing, cold\<lparr>secret_calls := [lit ''arn'']\<rparr>)"
    by (simp add: defs)
  with lambda_handler_persists_last [OF read_config_sample run [of ?missing]] cold
  have 1: "fst (lambda_handler ?missing cold) = Inl SecretMissing \<and>
           s3_puts (snd (lambda_handler ?missing cold)) = []"
    by simp
  have tok: "load_token (sample_world sample_env (Some (lit ''ghp_abc'')) parses reply)
               (lit ''arn'') cold = (Inr (lit ''ghp_abc''), ?warm)" for parses reply
    by (simp add: defs)
  have "github_request ?down (api_url (lit ''octocat'')) (lit ''ghp_abc'') =
          Inl (GitHubHTTPError 503 (lit ''unavailable''))"
    by (simp add: github_request_def sample_world_def lit_def)
  with lambda_handler_persists_last [OF read_config_sample run [of ?down]] tok cold
  have 2: "fst (lambda_handler ?down cold) = Inl (GitHubHTTPError 503 (lit ''unavailable'')) \<and>
           s3_puts (snd (lambda_handler ?down cold)) = []"
    by simp
  have "github_request ?shape (api_url (lit ''octocat'')) (lit ''ghp_abc'') =
          Inr (JDict [(lit ''message'', JStr (lit ''Not Found''))])"
    by (simp add: github_request_def sample_world_def lit_def)
  with lambda_handler_persists_last [OF read_config_sample run [of ?shape]] tok cold
  have 3: "fst (lambda_handler ?shape cold) = Inl UnexpectedPayloadShape \<and>
           s3_puts (snd (lambda_handler ?shape cold)) = []"
    by simp
  have 4: "fst (lambda_handler ?ok cold) =
             Inr (invocation_result (lit ''site'') (lit ''projects.json'') 1) \<and>
           map Key (s3_puts (snd (lambda_handler ?ok cold))) = [lit ''projects.json'']"
  proof -
    let ?repos = "[JDict [(lit ''name'', JStr (lit ''site''))]]"
    have fetch: "github_request ?ok (api_url (lit ''octocat'')) (lit ''ghp_abc'') = Inr (JList ?repos)"
      by (simp add: github_request_def sample_world_def lit_def)
    have top: "top_repos 5 ?repos = Inr ?repos"
      by (simp add: top_repos_def sorted_repos_def sorted_reverse_def pushed_at_key_def
          dict_get_def slice_to_def lit_def)
    obtain payload where built: "build_payload (now ?ok) ?repos = Inr payload"
      by (simp add: build_payload_def transform_repo_def Let_def)
    have put: "put_to_s3 ?ok (lit ''site'') (lit ''projects.json'') payload ?warm =
                 (Inr (), ?warm\<lparr>s3_puts :=
                    [put_object_request (lit ''site'') (lit ''projects.json'') payload]\<rparr>)"
      by (simp add: put_to_s3_def sample_world_def)
    have "s3_puts (snd (lambda_handler ?ok cold)) \<noteq> s3_puts cold"
      by (simp add: lambda_handler_def read_config_sample tok fetch top built put cold)
    with lambda_handler_persists_last [OF read_config_sample run [of ?ok]]
    obtain kept payload' where "top_repos 5 ?repos = Inr kept"
      and "s3_puts (snd (lambda_handler ?ok cold)) =
           s3_puts cold @ [put_object_request (lit ''site'') (lit ''projects.json'') payload']"
      and "fst (lambda_handler ?ok cold) =
           Inr (invocation_result (lit ''site'') (lit ''projects.json'') (length kept))"
      by (auto simp: tok fetch)
    with top show ?thesis
      by (auto simp: cold put_object_request_def)
  qed
  from 1 2 3 4 show ?thesis by simp
qed

end
